theory Spec2Isabelle
  imports Complex_Main "HOL-Library.Multiset" "HOL-Library.AList"
begin

section \<open>Numbers, strings and arrays of the source language\<close>

text \<open>
  The TypeScript sources compute with IEEE doubles. Every property below depends only on
  the order and the equality of finite scores, so a score is a \<^typ>\<open>real\<close>; the one place
  where the source tests for not-a-number (\<open>generateEmbedding\<close>) uses \<open>jsnum\<close>.
\<close>

datatype relevance = high_relevance | medium_relevance | low_relevance

section \<open>App.tsx: relevance classes and search ranking\<close>

text \<open>\<open>getRelevance\<close>, App.tsx lines 197-201.\<close>

definition getRelevance :: "real \<Rightarrow> relevance" where
  "getRelevance score =
     (if score > 0.49 then high_relevance
      else if score > 0.38 then medium_relevance
      else low_relevance)"

text \<open>
  The list view (App.tsx line 524) and the visualizer (MemoryVisualizer.tsx lines 47 and
  215, through the \<open>getRelevance\<close> property that App.tsx line 513 passes) classify a
  score by calling the one function above.
\<close>

definition listViewRelevance :: "(string \<times> real) list \<Rightarrow> relevance list" where
  "listViewRelevance searchResults = map (\<lambda>result. getRelevance (snd result)) searchResults"

definition visualizerRelevance :: "(real \<Rightarrow> relevance) \<Rightarrow> real \<Rightarrow> relevance" where
  "visualizerRelevance getRelevanceProp score = getRelevanceProp score"

definition appVisualizerRelevance :: "real \<Rightarrow> relevance" where
  "appVisualizerRelevance = visualizerRelevance getRelevance"

text \<open>
  \<open>Array.prototype.sort\<close> with a comparator. ECMAScript requires the sort to be stable;
  for a consistent comparator the result is the stable ordering, which insertion from the
  right computes: an element goes in front of the first element it does not compare
  greater than.
\<close>

fun insert_by :: "('a \<Rightarrow> 'a \<Rightarrow> real) \<Rightarrow> 'a \<Rightarrow> 'a list \<Rightarrow> 'a list" where
  "insert_by cmp x [] = [x]"
| "insert_by cmp x (y # ys) =
     (if cmp x y \<le> 0 then x # y # ys else y # insert_by cmp x ys)"

definition Array_sort :: "('a \<Rightarrow> 'a \<Rightarrow> real) \<Rightarrow> 'a list \<Rightarrow> 'a list" where
  "Array_sort cmp xs = foldr (insert_by cmp) xs []"

datatype js_error = TypeError | ProviderError | StoreError | FormatError

text \<open>
  \<open>handleSearch\<close>, App.tsx lines 416-423, once the query embedding is there.
  \<open>cosineSimilarity\<close> is imported from a module that is not among the sources, so it is
  a parameter. \<open>memoryBankEmbeddings[i]\<close> past the end of the array is \<open>undefined\<close>;
  the similarity of \<open>undefined\<close> is not computed here: the search fails (the source
  catches the exception and alerts).
\<close>

definition handleSearch ::
  "(real list \<Rightarrow> real list \<Rightarrow> real) \<Rightarrow> real list \<Rightarrow> string list \<Rightarrow> real list list
     \<Rightarrow> js_error + (string \<times> real) list" where
  "handleSearch cosineSimilarity queryEmbedding currentMemoryBank memoryBankEmbeddings =
     (if length memoryBankEmbeddings < length currentMemoryBank then Inl TypeError
      else
        let results =
              map (\<lambda>(text, i). (text, cosineSimilarity queryEmbedding (memoryBankEmbeddings ! i)))
                (zip currentMemoryBank [0 ..< length currentMemoryBank])
        in Inr (Array_sort (\<lambda>a b. snd b - snd a) results))"

text \<open>
  Modelled from the spec: \<open>cosineSimilarity\<close> of module \<open>memory/similarity\<close>, which the
  sources import but do not contain. Section 4.4 of the specification: the dot product
  over the product of the magnitudes, and 0 when either magnitude is 0. The functions
  below take the similarity as a parameter; this definition instantiates it in examples.
\<close>

definition dot :: "real list \<Rightarrow> real list \<Rightarrow> real" where
  "dot a b = sum_list (map2 (*) a b)"

definition spec_cosineSimilarity :: "real list \<Rightarrow> real list \<Rightarrow> real" where
  "spec_cosineSimilarity a b =
     (let magA = sqrt (dot a a); magB = sqrt (dot b b)
      in if magA = 0 \<or> magB = 0 then 0 else dot a b / (magA * magB))"

section \<open>MemoryVisualizer.tsx: the neighbour graph\<close>

text \<open>
  The similarity matrix, MemoryVisualizer.tsx lines 70-82: the diagonal is set to 0, every
  other entry is the similarity of the two embeddings.
\<close>

definition similarityMatrix ::
  "(real list \<Rightarrow> real list \<Rightarrow> real) \<Rightarrow> real list list \<Rightarrow> real list list" where
  "similarityMatrix cosineSimilarity embeddings =
     map (\<lambda>i. map (\<lambda>j. if i = j then 0 else cosineSimilarity (embeddings ! i) (embeddings ! j))
                [0 ..< length embeddings])
         [0 ..< length embeddings]"

text \<open>
  \<open>Array.prototype.indexOf\<close>: the first position holding the value, or -1.
\<close>

primrec indexOf :: "'a list \<Rightarrow> 'a \<Rightarrow> int" where
  "indexOf [] v = - 1"
| "indexOf (x # xs) v =
     (if x = v then 0 else (let k = indexOf xs v in if k < 0 then - 1 else k + 1))"

text \<open>
  The assignment \<open>xs[k] = v\<close>. At index -1 JavaScript sets a property of the array
  object and leaves its elements as they are. An index past the end does not occur below:
  the index comes from \<open>indexOf\<close> on a row of the same length.
\<close>

definition assign :: "'a list \<Rightarrow> int \<Rightarrow> 'a \<Rightarrow> 'a list" where
  "assign xs k v = (if 0 \<le> k \<and> nat k < length xs then xs[nat k := v] else xs)"

definition MAX_CONNECTIONS :: nat where
  "MAX_CONNECTIONS = 3"

text \<open>
  The selection loop, MemoryVisualizer.tsx lines 91-105. The first argument counts the
  iterations that remain; \<open>row\<close> is \<open>similarityMatrix[id]\<close> and \<open>similarities\<close> its
  working copy. \<open>Math.max\<close> is taken of a non-empty array (line 95 leaves the loop on
  an empty one). Line 101 looks the maximum up in \<open>row\<close>, not in the working copy.
\<close>

fun selectConnections :: "nat \<Rightarrow> real list \<Rightarrow> real list \<Rightarrow> int list \<Rightarrow> int list" where
  "selectConnections 0 row similarities connections = connections"
| "selectConnections (Suc n) row similarities connections =
     (case similarities of
        [] \<Rightarrow> connections
      | s # ss \<Rightarrow>
          let maxSim = fold max ss s in
          if maxSim \<le> 0.1 then connections
          else
            let maxIndex = indexOf row maxSim in
            selectConnections n row (assign similarities maxIndex (- 1)) (connections @ [maxIndex]))"

definition nodeConnections :: "real list \<Rightarrow> int list" where
  "nodeConnections row = selectConnections MAX_CONNECTIONS row row []"

text \<open>
  The connections of every node (the loop over \<open>memoryItems\<close>, lines 86-121; the effect runs
  only when there are as many embeddings as items).
\<close>

definition buildConnections ::
  "(real list \<Rightarrow> real list \<Rightarrow> real) \<Rightarrow> real list list \<Rightarrow> int list list" where
  "buildConnections cosineSimilarity embeddings =
     map nodeConnections (similarityMatrix cosineSimilarity embeddings)"

text \<open>
  The selection as section 4.4 of the specification words it, for comparison: the
  maximum of the remaining similarities is selected and that candidate is removed from
  consideration, so the position is found among the remaining ones.
\<close>

fun spec_selectConnections :: "nat \<Rightarrow> real list \<Rightarrow> int list \<Rightarrow> int list" where
  "spec_selectConnections 0 remaining edges = edges"
| "spec_selectConnections (Suc n) remaining edges =
     (case remaining of
        [] \<Rightarrow> edges
      | s # ss \<Rightarrow>
          let maxSim = fold max ss s in
          if maxSim \<le> 0.1 then edges
          else
            let maxIndex = indexOf remaining maxSim in
            spec_selectConnections n (assign remaining maxIndex (- 1)) (edges @ [maxIndex]))"

definition spec_nodeConnections :: "real list \<Rightarrow> int list" where
  "spec_nodeConnections row = spec_selectConnections MAX_CONNECTIONS row []"

section \<open>The embedding provider (module of \<open>generateEmbedding\<close>)\<close>

text \<open>
  A JavaScript number that may be not-a-number, for the pooled output that
  \<open>generateEmbedding\<close> tests with \<open>isNaN\<close>.
\<close>

datatype jsnum = NaN | Num real

definition isNaN :: "jsnum \<Rightarrow> bool" where
  "isNaN x = (case x of NaN \<Rightarrow> True | Num _ \<Rightarrow> False)"

definition valueOf :: "jsnum \<Rightarrow> real" where
  "valueOf x = (case x of NaN \<Rightarrow> 0 | Num r \<Rightarrow> r)"

text \<open>
  \<open>String.prototype.trim\<close> removes white space and line terminators from both ends. A
  \<^typ>\<open>char\<close> is eight bits wide; of the characters JavaScript trims, these are the tab, line
  feed, vertical tab, form feed, carriage return, space and no-break space.
\<close>

definition isWhiteSpace :: "char \<Rightarrow> bool" where
  "isWhiteSpace c = (of_char c \<in> {9, 10, 11, 12, 13, 32, 160 :: nat})"

definition trim :: "string \<Rightarrow> string" where
  "trim s = rev (dropWhile isWhiteSpace (rev (dropWhile isWhiteSpace s)))"

text \<open>
  The loaded instance (\<open>model\<close> and \<open>tokenizer\<close>). The tokenizer, the model and
  \<open>last_token_pool\<close> run in the external tensor library: \<open>infer\<close> is what they give for
  one text, the data of the pooled tensor or the exception they raise. \<open>hidden_size\<close> is
  \<open>model.config.hidden_size\<close>, which may be undefined; \<open>normalize\<close> is the tensor's
  \<open>normalize(2, -1)\<close>.
\<close>

record EmbeddingInstance =
  hidden_size :: "nat option"
  infer :: "string \<Rightarrow> js_error + jsnum list"
  normalize :: "real list \<Rightarrow> real list"

record options =
  opt_normalize :: "bool option"
  opt_truncate :: "bool option"

definition no_options :: options where
  "no_options = \<lparr>opt_normalize = None, opt_truncate = None\<rparr>"

text \<open>\<open>(model.config as any).hidden_size || 384\<close>: undefined and 0 are falsy.\<close>

definition hidden_size_or_384 :: "EmbeddingInstance \<Rightarrow> nat" where
  "hidden_size_or_384 inst =
     (case hidden_size inst of None \<Rightarrow> 384 | Some n \<Rightarrow> if n = 0 then 384 else n)"

text \<open>
  \<open>generateEmbedding\<close> on one string (lines 100 and 111-151 of the module). The first
  argument is what \<open>await getInstance()\<close> gives: the instance, or the exception of a
  failed initialization. With no NaN among the pooled values \<open>valueOf\<close> reads each of them.
\<close>

definition generateEmbedding_text ::
  "js_error + EmbeddingInstance \<Rightarrow> options \<Rightarrow> string \<Rightarrow> js_error + real list" where
  "generateEmbedding_text awaited opts txt =
     (case awaited of
        Inl e \<Rightarrow> Inl e
      | Inr inst \<Rightarrow>
          if trim txt = [] then Inr (replicate (hidden_size_or_384 inst) 0)
          else
            (case infer inst txt of
               Inl e \<Rightarrow> Inl e
             | Inr pooled \<Rightarrow>
                 if list_ex isNaN pooled then
                   Inr (replicate
                          (if opt_truncate opts \<noteq> Some False then 256 else hidden_size_or_384 inst) 0)
                 else
                   let result = map valueOf pooled;
                       result = (if opt_truncate opts \<noteq> Some False then take 256 result else result);
                       result = (if opt_normalize opts \<noteq> Some False then normalize inst result
                                 else result)
                   in Inr result))"

text \<open>
  \<open>generateEmbedding\<close> on an array (lines 100-109): one call of itself per text, in
  order; the first exception ends the loop.
\<close>

fun generateEmbedding_each ::
  "js_error + EmbeddingInstance \<Rightarrow> options \<Rightarrow> string list \<Rightarrow> js_error + real list list" where
  "generateEmbedding_each awaited opts [] = Inr []"
| "generateEmbedding_each awaited opts (t # ts) =
     (case generateEmbedding_text awaited opts t of
        Inl e \<Rightarrow> Inl e
      | Inr embedding \<Rightarrow>
          (case generateEmbedding_each awaited opts ts of
             Inl e \<Rightarrow> Inl e
           | Inr embeddings \<Rightarrow> Inr (embedding # embeddings)))"

definition generateEmbedding ::
  "js_error + EmbeddingInstance \<Rightarrow> options \<Rightarrow> string list \<Rightarrow> js_error + real list list" where
  "generateEmbedding awaited opts texts =
     (case awaited of Inl e \<Rightarrow> Inl e | Inr inst \<Rightarrow> generateEmbedding_each awaited opts texts)"

section \<open>Property reads on the bank objects\<close>

text \<open>
  What a property read on one of the two bank objects of App.tsx can give. Both
  \<open>memoryBanks\<close> and \<open>customBankData\<close> are plain objects, so a read finds the object's
  own property (an array of strings) or else the property of that name of
  \<open>Object.prototype\<close>: a built-in function, of which only its \<open>length\<close> (the number of its
  declared parameters) matters here, or, under the name \<open>__proto__\<close>, the prototype
  object itself, which has no \<open>length\<close>. Any other name reads as \<open>undefined\<close>, here
  \<open>None\<close>. An object is an association list of its own properties.
\<close>

datatype js_value = Strings "string list" | Function nat | Prototype

definition Object_prototype :: "string \<Rightarrow> js_value option" where
  "Object_prototype name =
     (if name = ''constructor'' then Some (Function 1)
      else if name = ''hasOwnProperty'' then Some (Function 1)
      else if name = ''isPrototypeOf'' then Some (Function 1)
      else if name = ''propertyIsEnumerable'' then Some (Function 1)
      else if name = ''toString'' then Some (Function 0)
      else if name = ''toLocaleString'' then Some (Function 0)
      else if name = ''valueOf'' then Some (Function 0)
      else if name = ''__defineGetter__'' then Some (Function 2)
      else if name = ''__defineSetter__'' then Some (Function 2)
      else if name = ''__lookupGetter__'' then Some (Function 1)
      else if name = ''__lookupSetter__'' then Some (Function 1)
      else if name = ''__proto__'' then Some Prototype
      else None)"

definition property :: "(string \<times> string list) list \<Rightarrow> string \<Rightarrow> js_value option" where
  "property obj name =
     (case map_of obj name of Some xs \<Rightarrow> Some (Strings xs) | None \<Rightarrow> Object_prototype name)"

text \<open>
  The \<open>length\<close> of such a value (\<open>None\<close> for \<open>undefined\<close>), and \<open>generateEmbedding\<close>
  called with it: after the instance is awaited, a value that is not an array goes to
  \<open>text.trim()\<close>, line 112 of the embedding module, which throws a \<open>TypeError\<close> that line
  150 throws on.
\<close>

definition lengthOf :: "js_value \<Rightarrow> nat option" where
  "lengthOf v = (case v of Strings xs \<Rightarrow> Some (length xs) | Function n \<Rightarrow> Some n | Prototype \<Rightarrow> None)"

definition generateEmbedding_of ::
  "js_error + EmbeddingInstance \<Rightarrow> options \<Rightarrow> js_value \<Rightarrow> js_error + real list list" where
  "generateEmbedding_of awaited opts v =
     (case v of
        Strings texts \<Rightarrow> generateEmbedding awaited opts texts
      | _ \<Rightarrow> (case awaited of Inl e \<Rightarrow> Inl e | Inr inst \<Rightarrow> Inl TypeError))"

section \<open>The store (IndexedDB module) and the bank synchronization of App.tsx\<close>

text \<open>
  The database holds the object store \<open>memories\<close> (records in key order, keys from a
  generator that starts at 1) and the object store \<open>custom_banks\<close> (keyed by name; the
  order of its keys is not modelled). \<open>calls\<close> lists the store and provider calls in
  the order they were issued. The IndexedDB engine is external: \<open>rejected w k\<close> says
  whether the request of the call issued as number \<open>k\<close> fires its error event, on
  which every function of the module rejects its promise without changing the store.
\<close>

record MemoryRecord =
  r_id :: nat
  r_text :: string
  r_embedding :: "real list"
  r_bank :: string

datatype call =
    Call_getRecordsByBank string
  | Call_clearRecordsByBank string
  | Call_addRecord string string "real list"
  | Call_saveCustomBank string "string list"
  | Call_getCustomBank string
  | Call_getAllCustomBankNames
  | Call_deleteCustomBank string
  | Call_generateEmbedding "string list"
  | Call_generateEmbedding_of js_value

record world =
  memories :: "MemoryRecord list"
  nextKey :: nat
  custom_banks :: "(string \<times> string list) list"
  calls :: "call list"
  rejected :: "nat \<Rightarrow> bool"

definition issue :: "call \<Rightarrow> world \<Rightarrow> bool \<times> world" where
  "issue c w = (rejected w (length (calls w)), w\<lparr>calls := calls w @ [c]\<rparr>)"

definition addRecord ::
  "string \<Rightarrow> string \<Rightarrow> real list \<Rightarrow> world \<Rightarrow> (js_error + nat) \<times> world" where
  "addRecord bankName txt emb w =
     (let (rej, w1) = issue (Call_addRecord bankName txt emb) w in
      if rej then (Inl StoreError, w1)
      else (Inr (nextKey w1),
            w1\<lparr>memories := memories w1 @
                    [\<lparr>r_id = nextKey w1, r_text = txt, r_embedding = emb, r_bank = bankName\<rparr>],
                nextKey := Suc (nextKey w1)\<rparr>))"

definition getRecordsByBank :: "string \<Rightarrow> world \<Rightarrow> (js_error + MemoryRecord list) \<times> world" where
  "getRecordsByBank bankName w =
     (let (rej, w1) = issue (Call_getRecordsByBank bankName) w in
      if rej then (Inl StoreError, w1)
      else (Inr (filter (\<lambda>r. r_bank r = bankName) (memories w1)), w1))"

definition clearRecordsByBank :: "string \<Rightarrow> world \<Rightarrow> (js_error + unit) \<times> world" where
  "clearRecordsByBank bankName w =
     (let (rej, w1) = issue (Call_clearRecordsByBank bankName) w in
      if rej then (Inl StoreError, w1)
      else (Inr (), w1\<lparr>memories := filter (\<lambda>r. r_bank r \<noteq> bankName) (memories w1)\<rparr>))"

text \<open>
  How a run of an asynchronous function of App.tsx ends: it runs to its end, it returns
  early because \<open>isCancelled\<close> was set, or an awaited call throws.
\<close>

datatype outcome = Completed | Cancelled | Failed js_error

text \<open>
  The staleness test of \<open>setup\<close>, App.tsx line 302. \<open>every\<close> passes each record with its
  index.
\<close>

definition needsGeneration :: "MemoryRecord list \<Rightarrow> string list \<Rightarrow> bool" where
  "needsGeneration cachedRecords bankData =
     (length cachedRecords \<noteq> length bankData
      \<or> \<not> list_all (\<lambda>(r, i). r_text r = bankData ! i)
            (zip cachedRecords [0 ..< length cachedRecords]))"

text \<open>
  The insertion loop (App.tsx lines 308-311 and 372-375). \<open>isCancelled\<close> is a variable
  that the effect's clean-up sets at any time between two awaits: \<open>isCancelled k\<close> is
  its value at the \<open>k\<close>-th place where the run reads it, and the loop's reads start at
  number \<open>c\<close>. \<open>embeddings\<close> has one entry per text (lemma
  \<open>generateEmbedding_length\<close>), so \<open>embeddings ! j\<close> is in range.
\<close>

function addRecords ::
  "(nat \<Rightarrow> bool) \<Rightarrow> nat \<Rightarrow> string \<Rightarrow> string list \<Rightarrow> real list list \<Rightarrow> nat \<Rightarrow> world
     \<Rightarrow> outcome \<times> world" where
  "addRecords isCancelled c bankName bankData embeddings j w =
     (if j < length bankData then
        if isCancelled (c + j) then (Cancelled, w)
        else
          (case addRecord bankName (bankData ! j) (embeddings ! j) w of
             (Inl e, w1) \<Rightarrow> (Failed e, w1)
           | (Inr key, w1) \<Rightarrow> addRecords isCancelled c bankName bankData embeddings (Suc j) w1)
      else (Completed, w))"
  by pat_completeness auto
termination
  by (relation "measure (\<lambda>(isCancelled, c, bankName, bankData, embeddings, j, w). length bankData - j)")
     auto

declare addRecords.simps [simp del]

text \<open>
  The body of the per-bank loop of \<open>setup\<close>, App.tsx lines 299-316. An exception is
  caught and logged at line 314, and \<open>setup\<close> goes on to the next bank.
  \<open>Array.isArray(embeddings[0])\<close> holds exactly when \<open>embeddings\<close> is not empty.
\<close>

definition setup_cacheBank ::
  "js_error + EmbeddingInstance \<Rightarrow> (nat \<Rightarrow> bool) \<Rightarrow> string \<Rightarrow> string list \<Rightarrow> world
     \<Rightarrow> outcome \<times> world" where
  "setup_cacheBank awaited isCancelled bankName bankData w =
     (case getRecordsByBank bankName w of
        (Inl e, w1) \<Rightarrow> (Failed e, w1)
      | (Inr cachedRecords, w1) \<Rightarrow>
          if isCancelled 0 then (Cancelled, w1)
          else if needsGeneration cachedRecords bankData then
            (case clearRecordsByBank bankName w1 of
               (Inl e, w2) \<Rightarrow> (Failed e, w2)
             | (Inr u, w2) \<Rightarrow>
                 let w3 = w2\<lparr>calls := calls w2 @ [Call_generateEmbedding bankData]\<rparr> in
                 (case generateEmbedding awaited no_options bankData of
                    Inl e \<Rightarrow> (Failed e, w3)
                  | Inr embeddings \<Rightarrow>
                      if isCancelled 1 then (Cancelled, w3)
                      else if embeddings \<noteq> [] then
                        addRecords isCancelled 2 bankName bankData embeddings 0 w3
                      else (Completed, w3)))
          else (Completed, w1))"

text \<open>
  The content of the active bank as \<open>loadBank\<close> reads it, App.tsx line 365:
  \<open>memoryBanks[activeBank] || customBankData[activeBank] || []\<close>. Arrays (also the empty
  one), functions and objects are truthy and \<open>undefined\<close> is not, so each \<open>||\<close> passes
  on exactly when the read found nothing. The type annotation says \<open>string[]\<close>; under a
  name that \<open>Object.prototype\<close> has, the value is the inherited property of
  \<open>memoryBanks\<close> whatever \<open>customBankData\<close> holds.
\<close>

definition currentBankContentOf ::
  "(string \<times> string list) list \<Rightarrow> (string \<times> string list) list \<Rightarrow> string \<Rightarrow> js_value" where
  "currentBankContentOf memoryBanks customBankData activeBank =
     (case property memoryBanks activeBank of
        Some v \<Rightarrow> v
      | None \<Rightarrow>
          (case property customBankData activeBank of
             Some v \<Rightarrow> v
           | None \<Rightarrow> Strings []))"

text \<open>
  The entry of the call log for \<open>generateEmbedding\<close> called with such a value: the list
  of texts, or the value that is not an array. \<open>stringsOf\<close> gives the entries of an
  array.
\<close>

definition embeddingCall :: "js_value \<Rightarrow> call" where
  "embeddingCall v = (case v of Strings texts \<Rightarrow> Call_generateEmbedding texts | _ \<Rightarrow> Call_generateEmbedding_of v)"

definition stringsOf :: "js_value \<Rightarrow> string list" where
  "stringsOf v = (case v of Strings texts \<Rightarrow> texts | _ \<Rightarrow> [])"

text \<open>
  \<open>loadBank\<close>, App.tsx lines 362-382, for the active bank, given the two bank objects
  that the effect closes over. The second component is the value given to
  \<open>setMemoryBankEmbeddings\<close>, if the run reaches a call of it. Line 367 compares the
  lengths only. The loop of lines 372-375 is reached only after \<open>generateEmbedding\<close>
  returned, which it does for an array only.
\<close>

definition loadBank ::
  "js_error + EmbeddingInstance \<Rightarrow> (nat \<Rightarrow> bool) \<Rightarrow> (string \<times> string list) list
     \<Rightarrow> (string \<times> string list) list \<Rightarrow> string \<Rightarrow> world
     \<Rightarrow> outcome \<times> real list list option \<times> world" where
  "loadBank awaited isCancelled memoryBanks customBankData activeBank w =
     (case getRecordsByBank activeBank w of
        (Inl e, w1) \<Rightarrow> (Failed e, None, w1)
      | (Inr cachedRecords, w1) \<Rightarrow>
          if isCancelled 0 then (Cancelled, None, w1)
          else
            let currentBankContent = currentBankContentOf memoryBanks customBankData activeBank in
            if Some (length cachedRecords) \<noteq> lengthOf currentBankContent then
              (case clearRecordsByBank activeBank w1 of
                 (Inl e, w2) \<Rightarrow> (Failed e, None, w2)
               | (Inr u, w2) \<Rightarrow>
                   let w3 = w2\<lparr>calls := calls w2 @ [embeddingCall currentBankContent]\<rparr> in
                   (case generateEmbedding_of awaited no_options currentBankContent of
                      Inl e \<Rightarrow> (Failed e, None, w3)
                    | Inr embeddings \<Rightarrow>
                        if isCancelled 1 then (Cancelled, None, w3)
                        else if embeddings \<noteq> [] then
                          (case addRecords isCancelled 2 activeBank (stringsOf currentBankContent)
                                  embeddings 0 w3 of
                             (Completed, w4) \<Rightarrow>
                               (case getRecordsByBank activeBank w4 of
                                  (Inl e, w5) \<Rightarrow> (Failed e, None, w5)
                                | (Inr newCachedRecords, w5) \<Rightarrow>
                                    if isCancelled (2 + length (stringsOf currentBankContent))
                                    then (Cancelled, None, w5)
                                    else (Completed, Some (map r_embedding newCachedRecords), w5))
                           | (stopped, w4) \<Rightarrow> (stopped, None, w4))
                        else (Completed, None, w3)))
            else (Completed, Some (map r_embedding cachedRecords), w1))"

text \<open>
  What a bank lookup reads, and what a regeneration is expected to leave and to issue:
  one record per text, in the order of the texts, under the next keys of the generator
  and tagged with the bank; the read, the deletion, one embedding call for the whole
  list, and one insertion per text. \<open>newRecords\<close> and \<open>addCalls\<close> describe the
  loop from index \<open>j\<close> on.
\<close>

definition newRecords :: "nat \<Rightarrow> string \<Rightarrow> string list \<Rightarrow> real list list \<Rightarrow> nat \<Rightarrow> MemoryRecord list" where
  "newRecords key b texts embs j =
     map (\<lambda>i. \<lparr>r_id = key + (i - j), r_text = texts ! i, r_embedding = embs ! i, r_bank = b\<rparr>)
       [j ..< length texts]"

definition addCalls :: "string \<Rightarrow> string list \<Rightarrow> real list list \<Rightarrow> nat \<Rightarrow> call list" where
  "addCalls b texts embs j = map (\<lambda>i. Call_addRecord b (texts ! i) (embs ! i)) [j ..< length texts]"

definition cachedRecordsOf :: "string \<Rightarrow> world \<Rightarrow> MemoryRecord list" where
  "cachedRecordsOf b w = filter (\<lambda>r. r_bank r = b) (memories w)"

definition freshRecords :: "nat \<Rightarrow> string \<Rightarrow> string list \<Rightarrow> real list list \<Rightarrow> MemoryRecord list" where
  "freshRecords key b texts embs =
     map (\<lambda>i. \<lparr>r_id = key + i, r_text = texts ! i, r_embedding = embs ! i, r_bank = b\<rparr>)
       [0 ..< length texts]"

definition regenerationCalls :: "string \<Rightarrow> string list \<Rightarrow> real list list \<Rightarrow> call list" where
  "regenerationCalls b texts embs =
     [Call_getRecordsByBank b, Call_clearRecordsByBank b, Call_generateEmbedding texts]
     @ map (\<lambda>i. Call_addRecord b (texts ! i) (embs ! i)) [0 ..< length texts]"

text \<open>
  A concrete instance, concrete built-in banks and a concrete database for the examples:
  every non-blank text embeds to \<open>[1, 0]\<close>, the bank General has the given content and
  the other built-in banks are empty, and the database caches the given texts for the
  bank General under the keys from 1 on, with the embedding \<open>[0, 1]\<close>, and accepts every
  call.
\<close>

definition exampleInstance :: EmbeddingInstance where
  "exampleInstance = \<lparr>hidden_size = Some 2, infer = (\<lambda>t. Inr [Num 1, Num 0]), normalize = (\<lambda>v. v)\<rparr>"

definition exampleBanks :: "string list \<Rightarrow> (string \<times> string list) list" where
  "exampleBanks content =
     [(''General'', content), (''Programming'', []), (''Science'', []), (''Other'', [])]"

definition exampleWorld :: "string list \<Rightarrow> world" where
  "exampleWorld texts =
     \<lparr>memories = map (\<lambda>i. \<lparr>r_id = Suc i, r_text = texts ! i, r_embedding = [0, 1], r_bank = ''General''\<rparr>)
                   [0 ..< length texts],
      nextKey = Suc (length texts), custom_banks = [], calls = [], rejected = (\<lambda>k. False)\<rparr>"

section \<open>App.tsx: custom banks\<close>

text \<open>
  \<open>String.prototype.toLowerCase\<close> on eight-bit characters: the capital letters of ASCII
  and of Latin-1 map to the character 32 places up. \<open>String.prototype.split\<close> at a
  separator character.
\<close>

definition toLowerChar :: "char \<Rightarrow> char" where
  "toLowerChar c =
     (let n = of_char c :: nat
      in if (65 \<le> n \<and> n \<le> 90) \<or> (192 \<le> n \<and> n \<le> 222 \<and> n \<noteq> 215)
         then char_of (n + 32) else c)"

definition toLowerCase :: "string \<Rightarrow> string" where
  "toLowerCase s = map toLowerChar s"

primrec split :: "char \<Rightarrow> string \<Rightarrow> string list" where
  "split sep [] = [[]]"
| "split sep (c # cs) =
     (if c = sep then [] # split sep cs
      else (case split sep cs of [] \<Rightarrow> [[c]] | l # ls \<Rightarrow> (c # l) # ls))"

text \<open>
  The rest of the store module: the object store \<open>custom_banks\<close>. \<open>put\<close> replaces the
  bank of the same name or adds the bank.
\<close>

definition saveCustomBank :: "string \<Rightarrow> string list \<Rightarrow> world \<Rightarrow> (js_error + string) \<times> world" where
  "saveCustomBank name content w =
     (let (rej, w1) = issue (Call_saveCustomBank name content) w in
      if rej then (Inl StoreError, w1)
      else (Inr name, w1\<lparr>custom_banks := AList.update name content (custom_banks w1)\<rparr>))"

definition getCustomBank :: "string \<Rightarrow> world \<Rightarrow> (js_error + string list option) \<times> world" where
  "getCustomBank name w =
     (let (rej, w1) = issue (Call_getCustomBank name) w in
      if rej then (Inl StoreError, w1) else (Inr (map_of (custom_banks w1) name), w1))"

definition getAllCustomBankNames :: "world \<Rightarrow> (js_error + string list) \<times> world" where
  "getAllCustomBankNames w =
     (let (rej, w1) = issue Call_getAllCustomBankNames w in
      if rej then (Inl StoreError, w1) else (Inr (map fst (custom_banks w1)), w1))"

definition deleteCustomBank :: "string \<Rightarrow> world \<Rightarrow> (js_error + unit) \<times> world" where
  "deleteCustomBank name w =
     (let (rej, w1) = issue (Call_deleteCustomBank name) w in
      if rej then (Inl StoreError, w1)
      else (Inr (), w1\<lparr>custom_banks := AList.delete name (custom_banks w1)\<rparr>))"

text \<open>
  The state of \<open>App\<close> that the bank list depends on. \<open>memoryBankNames\<close> are the keys of
  \<open>memoryBanks\<close> (the module of the built-in banks, in its version with four banks).
\<close>

definition memoryBankNames :: "string list" where
  "memoryBankNames = [''General'', ''Programming'', ''Science'', ''Other'']"

record app =
  availableBanks :: "string list"
  customBankData :: "(string \<times> string list) list"
  activeBank :: string

definition initialApp :: app where
  "initialApp = \<lparr>availableBanks = memoryBankNames, customBankData = [], activeBank = ''General''\<rparr>"

text \<open>
  \<open>handleSave\<close> of \<open>CustomBankModal\<close>, App.tsx lines 31-65: the message given to
  \<open>setError\<close>, or the two arguments with which \<open>onSave\<close> is called.
\<close>

definition handleSave :: "string list \<Rightarrow> string \<Rightarrow> string \<Rightarrow> string + (string \<times> string)" where
  "handleSave existingNames bankName inputText =
     (let trimmedName = trim bankName in
      if trimmedName = [] then Inl ''Bank name cannot be empty.''
      else if toLowerCase trimmedName \<in> set existingNames
      then Inl ''This name is already taken. Please choose another.''
      else
        let lines = filter (\<lambda>line. trim line \<noteq> []) (split (CHR 0x0A) inputText) in
        if length lines = 0 then Inl ''Bank content cannot be empty.''
        else if length lines > 20 then Inl ''You can add a maximum of 20 facts.''
        else Inr (trimmedName, inputText))"

text \<open>
  \<open>handleSaveCustomBank\<close>, App.tsx lines 435-460. Its insertion loop reads no
  cancellation flag. An exception is logged and thrown on to the modal, which shows an
  error and stays open.
\<close>

definition handleSaveCustomBank ::
  "js_error + EmbeddingInstance \<Rightarrow> string \<Rightarrow> string \<Rightarrow> app \<Rightarrow> world \<Rightarrow> outcome \<times> app \<times> world" where
  "handleSaveCustomBank awaited name txt a w =
     (let newBankContent = filter (\<lambda>line. line \<noteq> []) (map trim (split (CHR 0x0A) txt)) in
      if length newBankContent = 0 then (Completed, a, w)
      else
        let w1 = w\<lparr>calls := calls w @ [Call_generateEmbedding newBankContent]\<rparr> in
        (case generateEmbedding awaited no_options newBankContent of
           Inl e \<Rightarrow> (Failed e, a, w1)
         | Inr embeddings \<Rightarrow>
             (case saveCustomBank name newBankContent w1 of
                (Inl e, w2) \<Rightarrow> (Failed e, a, w2)
              | (Inr key, w2) \<Rightarrow>
                  if embeddings \<noteq> [] then
                    (case addRecords (\<lambda>k. False) 0 name newBankContent embeddings 0 w2 of
                       (Completed, w3) \<Rightarrow>
                         (Completed,
                          a\<lparr>availableBanks := availableBanks a @ [name],
                            customBankData := AList.update name newBankContent (customBankData a),
                            activeBank := name\<rparr>,
                          w3)
                     | (stopped, w3) \<Rightarrow> (stopped, a, w3))
                  else (Failed FormatError, a, w2))))"

text \<open>
  A click on the modal's save button: \<open>handleSave\<close> with the lower-cased names of the
  available banks (App.tsx line 547), then \<open>onSave\<close>, which is \<open>handleSaveCustomBank\<close>.
\<close>

datatype modal_result = ModalError string | OnSave outcome

definition saveBankClicked ::
  "js_error + EmbeddingInstance \<Rightarrow> string \<Rightarrow> string \<Rightarrow> app \<times> world \<Rightarrow> modal_result \<times> app \<times> world" where
  "saveBankClicked awaited bankName inputText s =
     (case s of (a, w) \<Rightarrow>
        (case handleSave (map toLowerCase (availableBanks a)) bankName inputText of
           Inl message \<Rightarrow> (ModalError message, a, w)
         | Inr (name, txt) \<Rightarrow>
             (case handleSaveCustomBank awaited name txt a w of
                (out, a', w') \<Rightarrow> (OnSave out, a', w'))))"

text \<open>
  \<open>handleConfirmDelete\<close>, App.tsx lines 467-498, with the state updates of its timeout.
\<close>

definition handleConfirmDelete :: "string \<Rightarrow> app \<Rightarrow> world \<Rightarrow> outcome \<times> app \<times> world" where
  "handleConfirmDelete bankToDelete a w =
     (case deleteCustomBank bankToDelete w of
        (Inl e, w1) \<Rightarrow> (Failed e, a, w1)
      | (Inr u, w1) \<Rightarrow>
          (case clearRecordsByBank bankToDelete w1 of
             (Inl e, w2) \<Rightarrow> (Failed e, a, w2)
           | (Inr u, w2) \<Rightarrow>
               (Completed,
                a\<lparr>activeBank := (if activeBank a = bankToDelete then ''General'' else activeBank a),
                  availableBanks := filter (\<lambda>b. b \<noteq> bankToDelete) (availableBanks a),
                  customBankData := AList.delete bankToDelete (customBankData a)\<rparr>,
                w2)))"

text \<open>
  The part of \<open>setup\<close> that loads the custom banks, App.tsx lines 319-332. An exception
  here is not caught.
\<close>

fun loadCustomData ::
  "string list \<Rightarrow> (string \<times> string list) list \<Rightarrow> world
     \<Rightarrow> (js_error + (string \<times> string list) list) \<times> world" where
  "loadCustomData [] customData w = (Inr customData, w)"
| "loadCustomData (name # names) customData w =
     (case getCustomBank name w of
        (Inl e, w1) \<Rightarrow> (Inl e, w1)
      | (Inr None, w1) \<Rightarrow> loadCustomData names customData w1
      | (Inr (Some content), w1) \<Rightarrow> loadCustomData names (AList.update name content customData) w1)"

definition setup_loadCustomBanks :: "app \<Rightarrow> world \<Rightarrow> outcome \<times> app \<times> world" where
  "setup_loadCustomBanks a w =
     (case getAllCustomBankNames w of
        (Inl e, w1) \<Rightarrow> (Failed e, a, w1)
      | (Inr customBankNames, w1) \<Rightarrow>
          if length customBankNames > 0 then
            let a1 = a\<lparr>availableBanks := memoryBankNames @ customBankNames\<rparr> in
            (case loadCustomData customBankNames [] w1 of
               (Inl e, w2) \<Rightarrow> (Failed e, a1, w2)
             | (Inr customData, w2) \<Rightarrow> (Completed, a1\<lparr>customBankData := customData\<rparr>, w2))
          else (Completed, a, w1))"

text \<open>
  What the user can do to the list of banks: save a bank in the modal, confirm the
  deletion of a listed custom bank (built-in banks have no delete button, App.tsx line
  624), and reload the page, which starts \<open>App\<close> from its initial state over the same
  database. The pass of \<open>setup\<close> over the built-in banks does not touch bank names and
  is left out of the reload.
\<close>

datatype event = SaveBank string string | ConfirmDelete string | Reload

fun step :: "js_error + EmbeddingInstance \<Rightarrow> event \<Rightarrow> app \<times> world \<Rightarrow> app \<times> world" where
  "step awaited (SaveBank bankName inputText) s = snd (saveBankClicked awaited bankName inputText s)"
| "step awaited (ConfirmDelete name) (a, w) =
     (if name \<in> set (availableBanks a) \<and> name \<notin> set memoryBankNames
      then snd (handleConfirmDelete name a w) else (a, w))"
| "step awaited Reload (a, w) = snd (setup_loadCustomBanks initialApp w)"

definition run :: "js_error + EmbeddingInstance \<Rightarrow> event list \<Rightarrow> app \<times> world \<Rightarrow> app \<times> world" where
  "run awaited events s = fold (step awaited) events s"


text \<open>
  The lines that \<open>handleSave\<close> counts, and the content that \<open>handleSaveCustomBank\<close>
  stores.
\<close>

definition nonEmptyLines :: "string \<Rightarrow> string list" where
  "nonEmptyLines inputText = filter (\<lambda>line. trim line \<noteq> []) (split (CHR 0x0A) inputText)"

definition newBankContentOf :: "string \<Rightarrow> string list" where
  "newBankContentOf txt = filter (\<lambda>line. line \<noteq> []) (map trim (split (CHR 0x0A) txt))"

text \<open>An input text of \<open>n\<close> lines, each the letter f.\<close>

definition exampleLines :: "nat \<Rightarrow> string" where
  "exampleLines n = concat (replicate n [CHR ''f'', CHR 0x0A])"


text \<open>
  Two situations for the examples. The first is the state after the user saved, over the
  empty example database, a custom bank named \<open>constructor\<close> with the two facts a and b.
  The second is the empty example database whose engine rejects the call issued as
  number 2, which in the saving of a bank is the first insertion of a record (after the
  embedding call and \<open>saveCustomBank\<close>).
\<close>

definition constructorApp :: app where
  "constructorApp =
     \<lparr>availableBanks = memoryBankNames @ [''constructor''],
      customBankData = [(''constructor'', [''a'', ''b''])],
      activeBank = ''constructor''\<rparr>"

definition constructorWorld :: world where
  "constructorWorld =
     \<lparr>memories =
        [\<lparr>r_id = 1, r_text = ''a'', r_embedding = [1, 0], r_bank = ''constructor''\<rparr>,
         \<lparr>r_id = 2, r_text = ''b'', r_embedding = [1, 0], r_bank = ''constructor''\<rparr>],
      nextKey = 3,
      custom_banks = [(''constructor'', [''a'', ''b''])],
      calls =
        [Call_generateEmbedding [''a'', ''b''], Call_saveCustomBank ''constructor'' [''a'', ''b''],
         Call_addRecord ''constructor'' ''a'' [1, 0], Call_addRecord ''constructor'' ''b'' [1, 0]],
      rejected = (\<lambda>k. False)\<rparr>"


section \<open>Lazy initialization: \<open>openDB\<close> and \<open>getInstance\<close>\<close>

text \<open>
  A promise is pending until it is fulfilled or rejected, once. The promises a module
  creates are kept in a list, and a reference to a promise is its index.
\<close>

datatype 'a promise = Pending | Fulfilled 'a | Rejected

definition settle :: "nat \<Rightarrow> 'a promise \<Rightarrow> 'a promise list \<Rightarrow> 'a promise list" where
  "settle p v ps = (if p < length ps \<and> ps ! p = Pending then ps[p := v] else ps)"

text \<open>
  The store module: the variable \<open>dbPromise\<close> (null or a reference), the promises that
  \<open>openDB\<close> created, and the open requests whose success or error event is still to
  come. Every call of \<open>indexedDB.open\<close> adds one promise.
\<close>

record 'db db_module =
  dbPromise :: "nat option"
  dbPromises :: "'db promise list"
  db_inflight :: "nat set"

definition db_initial :: "'db db_module" where
  "db_initial = \<lparr>dbPromise = None, dbPromises = [], db_inflight = {}\<rparr>"

text \<open>
  \<open>openDB\<close>, lines 16-62 of the store module, with its two event handlers.
  \<open>indexedDB.open\<close> (line 22) is external: it returns a request, or it throws (as it does
  where the engine denies access to storage), and \<open>open_throws\<close> says which it does if
  this call reaches it. It is called inside the executor of the new promise, so when it
  throws the promise is rejected at once, no handler is installed, and line 21 assigns
  the rejected promise to \<open>dbPromise\<close>.
\<close>

definition openDB :: "bool \<Rightarrow> 'db db_module \<Rightarrow> nat \<times> 'db db_module" where
  "openDB open_throws m =
     (case dbPromise m of
        Some p \<Rightarrow> (p, m)
      | None \<Rightarrow>
          let p = length (dbPromises m) in
          if open_throws then (p, m\<lparr>dbPromise := Some p, dbPromises := dbPromises m @ [Rejected]\<rparr>)
          else
            (p, m\<lparr>dbPromise := Some p, dbPromises := dbPromises m @ [Pending],
                  db_inflight := insert p (db_inflight m)\<rparr>))"

definition onsuccess :: "nat \<Rightarrow> 'db \<Rightarrow> 'db db_module \<Rightarrow> 'db db_module" where
  "onsuccess p db m = m\<lparr>dbPromises := settle p (Fulfilled db) (dbPromises m)\<rparr>"

definition onerror :: "nat \<Rightarrow> 'db db_module \<Rightarrow> 'db db_module" where
  "onerror p m = m\<lparr>dbPromise := None, dbPromises := settle p Rejected (dbPromises m)\<rparr>"

text \<open>
  What happens to the module: a caller calls \<open>openDB\<close> (with what \<open>indexedDB.open\<close>
  would do in that call), or the engine fires the success or the error event of a
  request in flight.
\<close>

datatype 'db db_event = OpenDB bool | OnSuccess nat 'db | OnError nat

fun db_step :: "'db db_event \<Rightarrow> 'db db_module \<Rightarrow> 'db db_module" where
  "db_step (OpenDB open_throws) m = snd (openDB open_throws m)"
| "db_step (OnSuccess p db) m =
     (if p \<in> db_inflight m then onsuccess p db (m\<lparr>db_inflight := db_inflight m - {p}\<rparr>) else m)"
| "db_step (OnError p) m =
     (if p \<in> db_inflight m then onerror p (m\<lparr>db_inflight := db_inflight m - {p}\<rparr>) else m)"

definition db_run :: "'db db_event list \<Rightarrow> 'db db_module \<Rightarrow> 'db db_module" where
  "db_run events m = fold db_step events m"

text \<open>
  The invariant: there is a request in flight only for the cached promise, which is
  pending then; a cached promise with no request in flight is settled.
\<close>

definition db_inv :: "'db db_module \<Rightarrow> bool" where
  "db_inv m =
     (case dbPromise m of
        None \<Rightarrow> db_inflight m = {}
      | Some p \<Rightarrow>
          p < length (dbPromises m) \<and> db_inflight m \<subseteq> {p}
          \<and> (if p \<in> db_inflight m then dbPromises m ! p = Pending
              else dbPromises m ! p \<noteq> Pending))"

text \<open>
  The embedding module: the variables \<open>instance\<close> and \<open>instancePromise\<close>, the
  promises created, and the loads in progress. \<open>getInstance\<close> (lines 47-94) is an
  asynchronous function that returns the instance or the promise: the caller gets the
  instance at once, or waits for the promise. A load ends in the \<open>try\<close> block, which
  sets \<open>instance\<close> and resolves, or in the \<open>catch\<close> block, which clears
  \<open>instancePromise\<close> and rejects.
\<close>

datatype 'i handle = Ready 'i | Awaiting nat

record 'i embedding_module =
  loadedInstance :: "'i option"
  instancePromise :: "nat option"
  instancePromises :: "'i promise list"
  loads_inflight :: "nat set"

definition embedding_initial :: "'i embedding_module" where
  "embedding_initial =
     \<lparr>loadedInstance = None, instancePromise = None, instancePromises = [], loads_inflight = {}\<rparr>"

definition getInstance :: "'i embedding_module \<Rightarrow> 'i handle \<times> 'i embedding_module" where
  "getInstance m =
     (case loadedInstance m of
        Some i \<Rightarrow> (Ready i, m)
      | None \<Rightarrow>
          (case instancePromise m of
             None \<Rightarrow>
               let p = length (instancePromises m) in
               (Awaiting p,
                m\<lparr>instancePromise := Some p, instancePromises := instancePromises m @ [Pending],
                  loads_inflight := insert p (loads_inflight m)\<rparr>)
           | Some p \<Rightarrow> (Awaiting p, m)))"

definition load_succeeds :: "nat \<Rightarrow> 'i \<Rightarrow> 'i embedding_module \<Rightarrow> 'i embedding_module" where
  "load_succeeds p i m =
     m\<lparr>loadedInstance := Some i, instancePromises := settle p (Fulfilled i) (instancePromises m)\<rparr>"

definition load_fails :: "nat \<Rightarrow> 'i embedding_module \<Rightarrow> 'i embedding_module" where
  "load_fails p m =
     m\<lparr>instancePromise := None, instancePromises := settle p Rejected (instancePromises m)\<rparr>"

datatype 'i embedding_event = GetInstance | LoadSucceeds nat 'i | LoadFails nat

fun embedding_step :: "'i embedding_event \<Rightarrow> 'i embedding_module \<Rightarrow> 'i embedding_module" where
  "embedding_step GetInstance m = snd (getInstance m)"
| "embedding_step (LoadSucceeds p i) m =
     (if p \<in> loads_inflight m
      then load_succeeds p i (m\<lparr>loads_inflight := loads_inflight m - {p}\<rparr>) else m)"
| "embedding_step (LoadFails p) m =
     (if p \<in> loads_inflight m
      then load_fails p (m\<lparr>loads_inflight := loads_inflight m - {p}\<rparr>) else m)"

definition embedding_run ::
  "'i embedding_event list \<Rightarrow> 'i embedding_module \<Rightarrow> 'i embedding_module" where
  "embedding_run events m = fold embedding_step events m"

definition embedding_inv :: "'i embedding_module \<Rightarrow> bool" where
  "embedding_inv m =
     (case instancePromise m of
        None \<Rightarrow> loads_inflight m = {} \<and> loadedInstance m = None
      | Some p \<Rightarrow>
          p < length (instancePromises m) \<and> loads_inflight m \<subseteq> {p}
          \<and> (if p \<in> loads_inflight m
              then instancePromises m ! p = Pending \<and> loadedInstance m = None
              else (\<exists>i. instancePromises m ! p = Fulfilled i \<and> loadedInstance m = Some i)))"

section \<open>Properties\<close>

subsection \<open>Relevance classes\<close>

text \<open>
  C9: for every score the class is high exactly when the score exceeds 0.49, medium exactly
  when it exceeds 0.38 without exceeding 0.49, and low otherwise; the list view and the
  visualizer classify with the same two constants.
\<close>

theorem getRelevance_thresholds:
  "(getRelevance score = high_relevance) = (score > 0.49)
   \<and> (getRelevance score = medium_relevance) = (0.38 < score \<and> score \<le> 0.49)
   \<and> (getRelevance score = low_relevance) = (score \<le> 0.38)
   \<and> appVisualizerRelevance score = getRelevance score
   \<and> listViewRelevance [(t, score)] = [getRelevance score]"
  by (simp add: getRelevance_def appVisualizerRelevance_def visualizerRelevance_def
      listViewRelevance_def)

subsection \<open>Search ranking\<close>

lemma spec_cosineSimilarity_unit_vectors:
  "spec_cosineSimilarity [1, 0] [1, 0] = 1" "spec_cosineSimilarity [1, 0] [0, 1] = 0"
  "spec_cosineSimilarity [0, 1] [1, 0] = 0" "spec_cosineSimilarity [0, 1] [0, 1] = 1"
  by (simp_all add: spec_cosineSimilarity_def dot_def)

lemma insert_by_desc:
  "insert_by (\<lambda>a b. snd b - snd a) x ys = insort_key (\<lambda>r. - snd r) x ys"
  by (induction ys) auto

lemma Array_sort_desc:
  "Array_sort (\<lambda>a b. snd b - snd a) xs = sort_key (\<lambda>r. - snd r) xs"
  by (induction xs) (simp_all add: Array_sort_def sort_key_def insert_by_desc)

lemma scored_by_index:
  assumes "length texts \<le> length embs"
  shows "map (\<lambda>(text, i). (text, f (embs ! i))) (zip texts [0 ..< length texts])
         = map (\<lambda>(text, e). (text, f e)) (zip texts embs)"
  using assms by (intro nth_equalityI) simp_all

lemma sorted_desc_sort_key:
  "sorted_wrt (\<lambda>a b. snd b \<le> snd a) (sort_key (\<lambda>r. - snd r) (xs :: ('a \<times> real) list))"
proof -
  have "sorted (map (\<lambda>r. - snd r) (sort_key (\<lambda>r. - snd r) xs))"
    by (rule sorted_sort_key)
  then show ?thesis
    by (simp add: sorted_map)
qed

text \<open>
  C8: for every query vector and every list of records (a text of the bank with the
  embedding at the same position), the search returns the pairs of a text and its cosine
  similarity to the query, in descending order of the score, and pairs of equal score
  stay in their original order.
\<close>

theorem handleSearch_ranks:
  assumes "length currentMemoryBank \<le> length memoryBankEmbeddings"
  shows "\<exists>ranked.
      handleSearch cs q currentMemoryBank memoryBankEmbeddings = Inr ranked
    \<and> mset ranked
        = mset (map (\<lambda>(text, e). (text, cs q e)) (zip currentMemoryBank memoryBankEmbeddings))
    \<and> sorted_wrt (\<lambda>a b. snd b \<le> snd a) ranked
    \<and> (\<forall>s. filter (\<lambda>r. snd r = s) ranked
           = filter (\<lambda>r. snd r = s)
               (map (\<lambda>(text, e). (text, cs q e)) (zip currentMemoryBank memoryBankEmbeddings)))"
proof -
  let ?scored = "map (\<lambda>(text, e). (text, cs q e)) (zip currentMemoryBank memoryBankEmbeddings)"
  let ?ranked = "sort_key (\<lambda>r. - snd r) ?scored"
  have run: "handleSearch cs q currentMemoryBank memoryBankEmbeddings = Inr ?ranked"
    using assms by (simp add: handleSearch_def Array_sort_desc scored_by_index)
  have stable: "filter (\<lambda>r. snd r = s) ?ranked = filter (\<lambda>r. snd r = s) ?scored" for s
    using sort_key_stable [of "\<lambda>r. - snd r" "- s" ?scored] by simp
  show ?thesis
    using run stable sorted_desc_sort_key [of ?scored] by (intro exI [of _ ?ranked]) simp
qed

text \<open>
  The theorem at a bank of three facts of which the last two score alike: the search
  result is the one the theorem describes, and the tie keeps the bank's order.
\<close>

theorem handleSearch_ranks_witness:
  "length [''a'', ''b'', ''c''] \<le> length [[0, 1], [1, 0], [1, 0 :: real]]
   \<and> handleSearch spec_cosineSimilarity [1, 0] [''a'', ''b'', ''c''] [[0, 1], [1, 0], [1, 0]]
       = Inr [(''b'', 1), (''c'', 1), (''a'', 0)]
   \<and> (\<exists>ranked.
         handleSearch spec_cosineSimilarity [1, 0] [''a'', ''b'', ''c''] [[0, 1], [1, 0], [1, 0]]
           = Inr ranked
       \<and> sorted_wrt (\<lambda>a b. snd b \<le> snd a) ranked
       \<and> filter (\<lambda>r. snd r = 1) ranked = [(''b'', 1), (''c'', 1)])"
proof -
  have len: "length [''a'', ''b'', ''c''] \<le> length [[0, 1], [1, 0], [1, 0 :: real]]"
    by simp
  have run: "handleSearch spec_cosineSimilarity [1, 0] [''a'', ''b'', ''c''] [[0, 1], [1, 0], [1, 0]]
               = Inr [(''b'', 1), (''c'', 1), (''a'', 0)]"
    by (simp add: handleSearch_def Array_sort_def spec_cosineSimilarity_unit_vectors)
  from handleSearch_ranks [OF len, of spec_cosineSimilarity "[1, 0]"]
  obtain ranked where
    r: "handleSearch spec_cosineSimilarity [1, 0] [''a'', ''b'', ''c''] [[0, 1], [1, 0], [1, 0]]
          = Inr ranked"
    and s: "sorted_wrt (\<lambda>a b. snd b \<le> snd a) ranked"
    and f: "\<forall>s. filter (\<lambda>r. snd r = s) ranked
              = filter (\<lambda>r. snd r = s)
                  (map (\<lambda>(text, e). (text, spec_cosineSimilarity [1, 0] e))
                     (zip [''a'', ''b'', ''c''] [[0, 1], [1, 0], [1, 0]]))"
    by blast
  from f have "filter (\<lambda>r. snd r = 1) ranked = [(''b'', 1), (''c'', 1)]"
    by (simp add: spec_cosineSimilarity_unit_vectors)
  with len run r s show ?thesis
    by blast
qed

subsection \<open>Neighbour selection\<close>

lemma fold_max_Max: "fold max ss (s :: real) = Max (set (s # ss))"
  by (simp only: Max.set_eq_fold)

lemma indexOf_first:
  "v \<in> set xs \<Longrightarrow>
   \<exists>i < length xs. indexOf xs v = int i \<and> xs ! i = v \<and> (\<forall>j < i. xs ! j \<noteq> v)"
proof (induction xs)
  case Nil
  then show ?case by simp
next
  case (Cons x xs)
  show ?case
  proof (cases "x = v")
    case True
    then show ?thesis
      by (intro exI [of _ 0]) simp
  next
    case False
    with Cons.prems have "v \<in> set xs"
      by simp
    from Cons.IH [OF this] obtain i where
      i: "i < length xs" "indexOf xs v = int i" "xs ! i = v" "\<forall>j < i. xs ! j \<noteq> v"
      by blast
    with False show ?thesis
      by (intro exI [of _ "Suc i"]) (auto simp: nth_Cons split: nat.splits)
  qed
qed

text \<open>
  Where no two candidates above the threshold have the same similarity, the loop of the
  source computes the selection that the specification describes: the working copy holds
  the row's values or the mark -1, and the maximum occurs once in the row.
\<close>

lemma selectConnections_agree:
  assumes "length sims = length row"
    and "\<forall>i < length row. sims ! i = row ! i \<or> sims ! i = - 1"
    and "\<forall>i j. i < length row \<and> j < length row \<and> row ! i = row ! j \<and> 0.1 < row ! i \<longrightarrow> i = j"
  shows "selectConnections n row sims conns = spec_selectConnections n sims conns"
  using assms
proof (induction n arbitrary: sims conns)
  case 0
  then show ?case by simp
next
  case (Suc n)
  show ?case
  proof (cases sims)
    case Nil
    then show ?thesis by simp
  next
    case (Cons s ss)
    let ?maxSim = "fold max ss s"
    show ?thesis
    proof (cases "?maxSim \<le> 0.1")
      case True
      with Cons show ?thesis by simp
    next
      case False
      have "?maxSim \<in> set sims"
        unfolding fold_max_Max Cons by (rule Max_in) simp_all
      from indexOf_first [OF this] obtain i where
        i: "i < length sims" "indexOf sims ?maxSim = int i" "sims ! i = ?maxSim"
        by blast
      from False i(3) have "sims ! i \<noteq> - 1"
        by simp
      with Suc.prems(1,2) i(1) have ri: "row ! i = ?maxSim"
        using i(3) by metis
      with Suc.prems(1) i(1) have "?maxSim \<in> set row"
        by (metis nth_mem)
      from indexOf_first [OF this] obtain j where
        j: "j < length row" "indexOf row ?maxSim = int j" "row ! j = ?maxSim"
        by blast
      from Suc.prems(1,3) i(1) j(1,3) ri False have "j = i"
        by (metis not_le)
      with j(2) have same: "indexOf row ?maxSim = int i"
        by simp
      let ?sims' = "assign sims (int i) (- 1)"
      have upd: "?sims' = sims[i := - 1]"
        using i(1) by (simp add: assign_def)
      have "selectConnections n row ?sims' (conns @ [int i])
            = spec_selectConnections n ?sims' (conns @ [int i])"
      proof (rule Suc.IH)
        show "length ?sims' = length row"
          using Suc.prems(1) by (simp add: upd)
        show "\<forall>k < length row. ?sims' ! k = row ! k \<or> ?sims' ! k = - 1"
          unfolding upd
        proof (intro allI impI)
          fix k assume k: "k < length row"
          with Suc.prems(2) have "sims ! k = row ! k \<or> sims ! k = - 1"
            by blast
          with k Suc.prems(1) show "sims[i := - 1] ! k = row ! k \<or> sims[i := - 1] ! k = - 1"
            by (cases "k = i") simp_all
        qed
        show "\<forall>i j. i < length row \<and> j < length row \<and> row ! i = row ! j \<and> 0.1 < row ! i \<longrightarrow> i = j"
          by (rule Suc.prems(3))
      qed
      with False Cons i(2) same show ?thesis
        by (simp add: Let_def)
    qed
  qed
qed

lemma nodeConnections_agree_without_ties:
  assumes "\<forall>i j. i < length row \<and> j < length row \<and> row ! i = row ! j \<and> 0.1 < row ! i \<longrightarrow> i = j"
  shows "nodeConnections row = spec_nodeConnections row"
  unfolding nodeConnections_def spec_nodeConnections_def
  by (rule selectConnections_agree) (use assms in simp_all)

text \<open>
  C2: each node's neighbour list takes the largest remaining similarity above 0.1, removes
  that candidate so that it cannot be selected again, and repeats up to three times, the
  lowest index first among equal similarities. The source does not do this when two
  candidates tie: for three facts with the same embedding, node 0 sees the similarities
  0, 1, 1 and connects to node 1 three times, where the selection described connects it to
  nodes 1 and 2. The marked copy loses index 1, but the index is looked up in the
  unmarked row, which still holds the first of the equal values.
\<close>

theorem nodeConnections_repeats_tied_neighbour:
  "similarityMatrix spec_cosineSimilarity [[1, 0], [1, 0], [1, 0]]
     = [[0, 1, 1], [1, 0, 1], [1, 1, 0]]
   \<and> nodeConnections [0, 1, 1] = [1, 1, 1]
   \<and> spec_nodeConnections [0, 1, 1] = [1, 2]
   \<and> buildConnections spec_cosineSimilarity [[1, 0], [1, 0], [1, 0]]
       = [[1, 1, 1], [0, 0, 0], [0, 0, 0]]"
proof -
  have m: "similarityMatrix spec_cosineSimilarity [[1, 0], [1, 0], [1, 0]]
             = [[0, 1, 1], [1, 0, 1], [1, 1, 0]]"
    by (simp add: similarityMatrix_def upt_rec spec_cosineSimilarity_unit_vectors)
  have c: "nodeConnections [0, 1, 1] = [1, 1, 1]"
    "nodeConnections [1, 0, 1] = [0, 0, 0]" "nodeConnections [1, 1, 0] = [0, 0, 0]"
    by (simp_all add: nodeConnections_def MAX_CONNECTIONS_def numeral_3_eq_3 assign_def)
  have s: "spec_nodeConnections [0, 1, 1] = [1, 2]"
    by (simp add: spec_nodeConnections_def MAX_CONNECTIONS_def numeral_3_eq_3 assign_def)
  show ?thesis
    by (simp add: m c s buildConnections_def)
qed

subsection \<open>Degenerate embedding input\<close>

lemma generateEmbedding_each_nth:
  "generateEmbedding_each awaited opts texts = Inr embeddings \<Longrightarrow>
   length embeddings = length texts
   \<and> (\<forall>i < length texts. generateEmbedding_text awaited opts (texts ! i) = Inr (embeddings ! i))"
proof (induction texts arbitrary: embeddings)
  case Nil
  then show ?case by simp
next
  case (Cons t ts)
  from Cons.prems obtain v vs where
    v: "generateEmbedding_text awaited opts t = Inr v"
    and vs: "generateEmbedding_each awaited opts ts = Inr vs"
    and e: "embeddings = v # vs"
    by (auto split: sum.splits)
  from Cons.IH [OF vs] v e show ?case
    by (auto simp: nth_Cons split: nat.splits)
qed

lemma generateEmbedding_length:
  "generateEmbedding awaited opts texts = Inr embeddings \<Longrightarrow> length embeddings = length texts"
  by (auto simp: generateEmbedding_def split: sum.splits dest: generateEmbedding_each_nth)

lemma generateEmbedding_nth:
  "generateEmbedding awaited opts texts = Inr embeddings \<Longrightarrow> i < length texts \<Longrightarrow>
   generateEmbedding_text awaited opts (texts ! i) = Inr (embeddings ! i)"
  by (auto simp: generateEmbedding_def split: sum.splits dest: generateEmbedding_each_nth)

lemma list_ex_isNaN: "list_ex isNaN pooled = (NaN \<in> set pooled)"
  by (induction pooled) (auto simp: isNaN_def split: jsnum.splits)

text \<open>
  C6: for every call of the embedding function on an initialized instance, a text that
  is empty or only white space gives a zero vector of the native dimensionality
  (\<open>hidden_size\<close> of the model's configuration, 384 when that is missing), as a single
  text and as an entry of an array, and no exception; pooled values with a not-a-number
  among them give a zero vector (of 256 entries when truncation is on, of the native
  dimensionality otherwise) in place of the result.
\<close>

theorem generateEmbedding_degenerate_input:
  "(trim txt = [] \<longrightarrow>
      generateEmbedding_text (Inr inst) opts txt = Inr (replicate (hidden_size_or_384 inst) 0))
   \<and> (hidden_size inst = Some n \<and> 0 < n \<longrightarrow> hidden_size_or_384 inst = n)
   \<and> (generateEmbedding (Inr inst) opts texts = Inr embeddings \<and> i < length texts
        \<and> trim (texts ! i) = [] \<longrightarrow>
      embeddings ! i = replicate (hidden_size_or_384 inst) 0)
   \<and> (trim txt \<noteq> [] \<and> infer inst txt = Inr pooled \<and> NaN \<in> set pooled \<longrightarrow>
      generateEmbedding_text (Inr inst) opts txt
        = Inr (replicate (if opt_truncate opts \<noteq> Some False then 256 else hidden_size_or_384 inst) 0))"
proof -
  have empty: "generateEmbedding_text (Inr inst) opts t = Inr (replicate (hidden_size_or_384 inst) 0)"
    if "trim t = []" for t
    using that by (simp add: generateEmbedding_text_def)
  have arr: "embeddings ! i = replicate (hidden_size_or_384 inst) 0"
    if "generateEmbedding (Inr inst) opts texts = Inr embeddings" "i < length texts"
      "trim (texts ! i) = []"
    using generateEmbedding_nth [OF that(1,2)] empty [OF that(3)] by simp
  have nan: "generateEmbedding_text (Inr inst) opts txt
        = Inr (replicate (if opt_truncate opts \<noteq> Some False then 256 else hidden_size_or_384 inst) 0)"
    if "trim txt \<noteq> []" "infer inst txt = Inr pooled" "NaN \<in> set pooled"
    using that by (simp add: generateEmbedding_text_def list_ex_isNaN)
  have dim: "hidden_size_or_384 inst = n" if "hidden_size inst = Some n" "0 < n"
    using that by (simp add: hidden_size_or_384_def)
  show ?thesis
    using empty arr nan dim by blast
qed

text \<open>
  The theorem at an instance of native dimensionality 1024 whose pooled output holds a
  not-a-number: a blank text, alone and in an array, and a non-blank text.
\<close>

theorem generateEmbedding_degenerate_input_witness:
  "trim ''  '' = []
   \<and> generateEmbedding_text
        (Inr \<lparr>hidden_size = Some 1024, infer = (\<lambda>t. Inr [Num 1, NaN]), normalize = (\<lambda>v. v)\<rparr>)
        no_options ''  '' = Inr (replicate 1024 0)
   \<and> generateEmbedding
        (Inr \<lparr>hidden_size = Some 1024, infer = (\<lambda>t. Inr [Num 1, NaN]), normalize = (\<lambda>v. v)\<rparr>)
        no_options [''  ''] = Inr [replicate 1024 0]
   \<and> hidden_size_or_384
        \<lparr>hidden_size = Some 1024, infer = (\<lambda>t. Inr [Num 1, NaN]), normalize = (\<lambda>v. v)\<rparr> = 1024
   \<and> trim ''x'' \<noteq> []
   \<and> NaN \<in> set [Num 1, NaN]
   \<and> generateEmbedding_text
        (Inr \<lparr>hidden_size = Some 1024, infer = (\<lambda>t. Inr [Num 1, NaN]), normalize = (\<lambda>v. v)\<rparr>)
        no_options ''x'' = Inr (replicate 256 0)"
proof -
  let ?inst = "\<lparr>hidden_size = Some 1024, infer = (\<lambda>t. Inr [Num 1, NaN]), normalize = (\<lambda>v. v)\<rparr>"
  have t: "trim ''  '' = []" "trim ''x'' \<noteq> []"
    by (simp_all add: trim_def isWhiteSpace_def)
  have g: "generateEmbedding (Inr ?inst) no_options [''  ''] = Inr [replicate 1024 0]"
    by (simp add: generateEmbedding_def generateEmbedding_text_def t hidden_size_or_384_def)
  note deg = generateEmbedding_degenerate_input [of _ ?inst no_options 1024 "[''  '']" "[replicate 1024 0]" 0 "[Num 1, NaN]"]
  from deg [of "''  ''"] t have a: "generateEmbedding_text (Inr ?inst) no_options ''  '' = Inr (replicate 1024 0)"
    by simp
  from deg [of "''x''"] t have b: "generateEmbedding_text (Inr ?inst) no_options ''x'' = Inr (replicate 256 0)"
    by (simp add: no_options_def)
  from deg [of "''x''"] have c: "hidden_size_or_384 ?inst = 1024"
    by simp
  from t g a b c show ?thesis by simp
qed

subsection \<open>Bank synchronization\<close>

lemma needsGeneration_iff:
  "needsGeneration cachedRecords bankData
   = (length cachedRecords \<noteq> length bankData
      \<or> (\<exists>i < length cachedRecords. r_text (cachedRecords ! i) \<noteq> bankData ! i))"
  by (auto simp: needsGeneration_def list_all_length)

lemma getRecordsByBank_accepted:
  "\<not> rejected w (length (calls w)) \<Longrightarrow>
   getRecordsByBank b w
     = (Inr (filter (\<lambda>r. r_bank r = b) (memories w)), w\<lparr>calls := calls w @ [Call_getRecordsByBank b]\<rparr>)"
  by (simp add: getRecordsByBank_def issue_def)

lemma getRecordsByBank_rejected:
  "rejected w (length (calls w)) \<Longrightarrow>
   getRecordsByBank b w = (Inl StoreError, w\<lparr>calls := calls w @ [Call_getRecordsByBank b]\<rparr>)"
  by (simp add: getRecordsByBank_def issue_def)

lemma clearRecordsByBank_accepted:
  "\<not> rejected w (length (calls w)) \<Longrightarrow>
   clearRecordsByBank b w
     = (Inr (), w\<lparr>memories := filter (\<lambda>r. r_bank r \<noteq> b) (memories w),
                   calls := calls w @ [Call_clearRecordsByBank b]\<rparr>)"
  by (simp add: clearRecordsByBank_def issue_def)

lemma addRecord_accepted:
  "\<not> rejected w (length (calls w)) \<Longrightarrow>
   addRecord b t e w
     = (Inr (nextKey w),
        w\<lparr>memories := memories w @ [\<lparr>r_id = nextKey w, r_text = t, r_embedding = e, r_bank = b\<rparr>],
          nextKey := Suc (nextKey w),
          calls := calls w @ [Call_addRecord b t e]\<rparr>)"
  by (simp add: addRecord_def issue_def)

lemma addRecords_completes:
  assumes "\<forall>k. \<not> isCancelled k" and "\<forall>k. \<not> rejected w k"
  shows "addRecords isCancelled c b texts embs j w
         = (Completed,
            w\<lparr>memories := memories w @ newRecords (nextKey w) b texts embs j,
              nextKey := nextKey w + (length texts - j),
              calls := calls w @ addCalls b texts embs j\<rparr>)"
  using assms
proof (induction "length texts - j" arbitrary: j w)
  case 0
  from "0.hyps" have run: "addRecords isCancelled c b texts embs j w = (Completed, w)"
    by (subst addRecords.simps) simp
  from "0.hyps" show ?case
    unfolding run by (simp add: newRecords_def addCalls_def)
next
  case (Suc n)
  from Suc.hyps(2) have j: "j < length texts" and n: "n = length texts - Suc j"
    by simp_all
  let ?w1 = "w\<lparr>memories := memories w @
                  [\<lparr>r_id = nextKey w, r_text = texts ! j, r_embedding = embs ! j, r_bank = b\<rparr>],
               nextKey := Suc (nextKey w),
               calls := calls w @ [Call_addRecord b (texts ! j) (embs ! j)]\<rparr>"
  have step: "addRecords isCancelled c b texts embs j w = addRecords isCancelled c b texts embs (Suc j) ?w1"
    using j Suc.prems by (subst addRecords.simps) (simp add: addRecord_accepted)
  have rest: "addRecords isCancelled c b texts embs (Suc j) ?w1
         = (Completed,
            ?w1\<lparr>memories := memories ?w1 @ newRecords (nextKey ?w1) b texts embs (Suc j),
              nextKey := nextKey ?w1 + (length texts - Suc j),
              calls := calls ?w1 @ addCalls b texts embs (Suc j)\<rparr>)"
    using Suc.prems by (intro Suc.hyps(1) [OF n]) simp_all
  have nr: "newRecords (nextKey w) b texts embs j
      = \<lparr>r_id = nextKey w, r_text = texts ! j, r_embedding = embs ! j, r_bank = b\<rparr>
        # newRecords (Suc (nextKey w)) b texts embs (Suc j)"
    using j by (auto simp: newRecords_def upt_conv_Cons)
  have ac: "addCalls b texts embs j
      = Call_addRecord b (texts ! j) (embs ! j) # addCalls b texts embs (Suc j)"
    using j by (simp add: addCalls_def upt_conv_Cons)
  from j show ?case
    unfolding step rest nr ac by simp
qed

lemma newRecords_0: "newRecords key b texts embs 0 = freshRecords key b texts embs"
  by (simp add: newRecords_def freshRecords_def)

lemma filter_freshRecords:
  "filter (\<lambda>r. r_bank r = b) (freshRecords key b texts embs) = freshRecords key b texts embs"
  "filter (\<lambda>r. r_bank r \<noteq> b) (freshRecords key b texts embs) = []"
  by (simp_all add: freshRecords_def filter_map comp_def)

lemma freshRecords_fields:
  "length embs = length texts \<Longrightarrow> map r_text (freshRecords key b texts embs) = texts"
  "length embs = length texts \<Longrightarrow> map r_embedding (freshRecords key b texts embs) = embs"
  by (auto simp: freshRecords_def intro: nth_equalityI)

lemma setup_cacheBank_regenerates:
  assumes nofault: "\<forall>k. \<not> rejected w k" and nocancel: "\<forall>k. \<not> isCancelled k"
    and provider: "generateEmbedding awaited no_options content = Inr embeddings"
    and stale: "needsGeneration (cachedRecordsOf b w) content"
  shows "setup_cacheBank awaited isCancelled b content w
         = (Completed,
            w\<lparr>memories := filter (\<lambda>r. r_bank r \<noteq> b) (memories w)
                           @ freshRecords (nextKey w) b content embeddings,
              nextKey := nextKey w + length content,
              calls := calls w @ regenerationCalls b content embeddings\<rparr>)"
proof -
  let ?w1 = "w\<lparr>calls := calls w @ [Call_getRecordsByBank b]\<rparr>"
  let ?w2 = "?w1\<lparr>memories := filter (\<lambda>r. r_bank r \<noteq> b) (memories ?w1),
                 calls := calls ?w1 @ [Call_clearRecordsByBank b]\<rparr>"
  let ?w3 = "?w2\<lparr>calls := calls ?w2 @ [Call_generateEmbedding content]\<rparr>"
  have g: "getRecordsByBank b w = (Inr (cachedRecordsOf b w), ?w1)"
    using nofault by (simp add: getRecordsByBank_accepted cachedRecordsOf_def)
  have c: "clearRecordsByBank b ?w1 = (Inr (), ?w2)"
    using nofault by (simp add: clearRecordsByBank_accepted)
  have nf3: "\<forall>k. \<not> rejected ?w3 k"
    using nofault by simp
  have a: "addRecords isCancelled 2 b content embeddings 0 ?w3
           = (Completed,
              ?w3\<lparr>memories := memories ?w3 @ newRecords (nextKey ?w3) b content embeddings 0,
                  nextKey := nextKey ?w3 + (length content - 0),
                  calls := calls ?w3 @ addCalls b content embeddings 0\<rparr>)"
    by (rule addRecords_completes [OF nocancel nf3])
  have len: "length embeddings = length content"
    by (rule generateEmbedding_length [OF provider])
  show ?thesis
  proof (cases "embeddings = []")
    case True
    with len have "content = []" by simp
    with True nocancel stale provider show ?thesis
      by (simp add: setup_cacheBank_def g c freshRecords_def regenerationCalls_def)
  next
    case False
    with nocancel stale provider a show ?thesis
      by (simp add: setup_cacheBank_def g c newRecords_0 regenerationCalls_def addCalls_def)
  qed
qed

lemma loadBank_regenerates:
  assumes nofault: "\<forall>k. \<not> rejected w k" and nocancel: "\<forall>k. \<not> isCancelled k"
    and provider: "generateEmbedding awaited no_options content = Inr embeddings"
    and stale: "length (cachedRecordsOf b w) \<noteq> length content"
    and content: "currentBankContentOf memoryBanks customData b = Strings content"
  shows "loadBank awaited isCancelled memoryBanks customData b w
         = (Completed, (if content = [] then None else Some embeddings),
            w\<lparr>memories := filter (\<lambda>r. r_bank r \<noteq> b) (memories w)
                           @ freshRecords (nextKey w) b content embeddings,
              nextKey := nextKey w + length content,
              calls := calls w @ regenerationCalls b content embeddings
                       @ (if content = [] then [] else [Call_getRecordsByBank b])\<rparr>)"
proof -
  let ?w1 = "w\<lparr>calls := calls w @ [Call_getRecordsByBank b]\<rparr>"
  let ?w2 = "?w1\<lparr>memories := filter (\<lambda>r. r_bank r \<noteq> b) (memories ?w1),
                 calls := calls ?w1 @ [Call_clearRecordsByBank b]\<rparr>"
  let ?w3 = "?w2\<lparr>calls := calls ?w2 @ [Call_generateEmbedding content]\<rparr>"
  let ?w4 = "?w3\<lparr>memories := memories ?w3 @ newRecords (nextKey ?w3) b content embeddings 0,
                  nextKey := nextKey ?w3 + (length content - 0),
                  calls := calls ?w3 @ addCalls b content embeddings 0\<rparr>"
  have g: "getRecordsByBank b w = (Inr (cachedRecordsOf b w), ?w1)"
    using nofault by (simp add: getRecordsByBank_accepted cachedRecordsOf_def)
  have c: "clearRecordsByBank b ?w1 = (Inr (), ?w2)"
    using nofault by (simp add: clearRecordsByBank_accepted)
  have nf3: "\<forall>k. \<not> rejected ?w3 k"
    using nofault by simp
  have a: "addRecords isCancelled 2 b content embeddings 0 ?w3 = (Completed, ?w4)"
    by (rule addRecords_completes [OF nocancel nf3])
  have g4: "getRecordsByBank b ?w4
            = (Inr (freshRecords (nextKey w) b content embeddings),
               ?w4\<lparr>calls := calls ?w4 @ [Call_getRecordsByBank b]\<rparr>)"
    using nofault
    by (simp add: getRecordsByBank_accepted newRecords_0 filter_freshRecords)
  have len: "length embeddings = length content"
    by (rule generateEmbedding_length [OF provider])
  show ?thesis
  proof (cases "embeddings = []")
    case True
    with len have "content = []" by simp
    with True nocancel stale provider show ?thesis
      by (simp add: loadBank_def content lengthOf_def generateEmbedding_of_def embeddingCall_def
          stringsOf_def g c freshRecords_def regenerationCalls_def)
  next
    case False
    with len have ne: "content \<noteq> []" by auto
    from False ne len nocancel stale provider a g4 show ?thesis
      by (simp add: loadBank_def content lengthOf_def generateEmbedding_of_def embeddingCall_def
          stringsOf_def g c newRecords_0 regenerationCalls_def addCalls_def freshRecords_fields)
  qed
qed

lemma setup_cacheBank_fresh:
  assumes "\<not> needsGeneration (cachedRecordsOf b w) content"
  shows "snd (setup_cacheBank awaited isCancelled b content w)
         = w\<lparr>calls := calls w @ [Call_getRecordsByBank b]\<rparr>"
  using assms
  by (cases "rejected w (length (calls w))")
     (simp_all add: setup_cacheBank_def getRecordsByBank_accepted getRecordsByBank_rejected
        cachedRecordsOf_def)

lemma loadBank_fresh:
  assumes "length (cachedRecordsOf b w) = length content"
    and "currentBankContentOf memoryBanks customData b = Strings content"
  shows "snd (snd (loadBank awaited isCancelled memoryBanks customData b w))
         = w\<lparr>calls := calls w @ [Call_getRecordsByBank b]\<rparr>"
  using assms
  by (cases "rejected w (length (calls w))")
     (simp_all add: loadBank_def lengthOf_def getRecordsByBank_accepted getRecordsByBank_rejected
        cachedRecordsOf_def)

lemma loadBank_reuses:
  assumes "length (cachedRecordsOf b w) = length content"
    and "currentBankContentOf memoryBanks customData b = Strings content"
    and "\<not> rejected w (length (calls w))" and "\<not> isCancelled 0"
  shows "loadBank awaited isCancelled memoryBanks customData b w
         = (Completed, Some (map r_embedding (cachedRecordsOf b w)),
            w\<lparr>calls := calls w @ [Call_getRecordsByBank b]\<rparr>)"
  using assms
  by (simp add: loadBank_def lengthOf_def getRecordsByBank_accepted cachedRecordsOf_def)

lemma currentBankContentOf_own:
  "map_of memoryBanks b = Some content \<Longrightarrow>
     currentBankContentOf memoryBanks customData b = Strings content"
  by (simp add: currentBankContentOf_def property_def)

lemma currentBankContentOf_custom:
  "map_of memoryBanks b = None \<Longrightarrow> Object_prototype b = None \<Longrightarrow>
   map_of customData b = Some content \<Longrightarrow>
     currentBankContentOf memoryBanks customData b = Strings content"
  by (simp add: currentBankContentOf_def property_def)

lemma currentBankContentOf_inherited:
  "map_of memoryBanks b = None \<Longrightarrow> Object_prototype b = Some v \<Longrightarrow>
     currentBankContentOf memoryBanks customData b = v"
  by (simp add: currentBankContentOf_def property_def)

lemma setup_cacheBank_skips:
  assumes "\<not> needsGeneration (cachedRecordsOf b w) content"
    and "\<not> rejected w (length (calls w))" and "\<not> isCancelled 0"
  shows "setup_cacheBank awaited isCancelled b content w
         = (Completed, w\<lparr>calls := calls w @ [Call_getRecordsByBank b]\<rparr>)"
  using assms
  by (simp add: setup_cacheBank_def getRecordsByBank_accepted cachedRecordsOf_def)

text \<open>
  A bank whose cached records match its content (as many records as entries, and the
  same text at every position) is not written by the start-up path, nor by the
  bank-switch path when line 365 reads that content: after the run the database differs
  only by the one read in the list of calls, whatever the cancellation flag and the
  engine do, and the bank-switch path hands on the embeddings of the records it read.
\<close>

lemma matching_bank_is_not_written:
  assumes count: "length (cachedRecordsOf b w) = length content"
    and texts: "\<forall>i < length content. r_text (cachedRecordsOf b w ! i) = content ! i"
    and content: "currentBankContentOf memoryBanks customData b = Strings content"
  shows "snd (setup_cacheBank awaited isCancelled b content w)
           = w\<lparr>calls := calls w @ [Call_getRecordsByBank b]\<rparr>
       \<and> snd (snd (loadBank awaited isCancelled memoryBanks customData b w))
           = w\<lparr>calls := calls w @ [Call_getRecordsByBank b]\<rparr>
       \<and> (\<not> rejected w (length (calls w)) \<and> \<not> isCancelled 0 \<longrightarrow>
            setup_cacheBank awaited isCancelled b content w
              = (Completed, w\<lparr>calls := calls w @ [Call_getRecordsByBank b]\<rparr>)
          \<and> loadBank awaited isCancelled memoryBanks customData b w
              = (Completed, Some (map r_embedding (cachedRecordsOf b w)),
                 w\<lparr>calls := calls w @ [Call_getRecordsByBank b]\<rparr>))"
proof -
  from count texts have fresh: "\<not> needsGeneration (cachedRecordsOf b w) content"
    by (simp add: needsGeneration_iff)
  show ?thesis
    using setup_cacheBank_fresh [OF fresh] loadBank_fresh [OF count content]
      setup_cacheBank_skips [OF fresh] loadBank_reuses [OF count content]
    by simp
qed

lemma exampleInstance_embeds:
  "generateEmbedding (Inr exampleInstance) no_options [''a'', ''b'', ''x'', ''d'', ''e'']
     = Inr [[1, 0], [1, 0], [1, 0], [1, 0], [1, 0]]"
  "generateEmbedding (Inr exampleInstance) no_options [''a'', ''b''] = Inr [[1, 0], [1, 0]]"
  by (simp_all add: generateEmbedding_def generateEmbedding_text_def exampleInstance_def
      no_options_def trim_def isWhiteSpace_def isNaN_def valueOf_def)

lemma exampleWorld_empty:
  "exampleWorld [] = \<lparr>memories = [], nextKey = 1, custom_banks = [], calls = [], rejected = (\<lambda>k. False)\<rparr>"
  by (simp add: exampleWorld_def)

lemma upt_5: "[0 ..< 5] = [0, 1, 2, 3, 4]"
  by (simp add: upt_rec)

text \<open>
  What a regeneration does. In a run that is not cancelled and in which the store accepts
  every call and the provider answers, a bank found stale (by the test of the start-up
  path, or by the length test of the bank-switch path when line 365 reads the bank's
  content) has all its records deleted, its whole content embedded in one call (the
  embedding at each position is that of the text at the same position), and one record
  per entry inserted in the order of the content, tagged with the bank. On the start-up
  path a bank of five entries of which one changed has five records deleted and five
  inserted, never one patched.
\<close>

lemma stale_bank_regeneration:
  assumes nofault: "\<forall>k. \<not> rejected w k" and nocancel: "\<forall>k. \<not> isCancelled k"
    and provider: "generateEmbedding awaited no_options content = Inr embeddings"
  shows
    "(needsGeneration (cachedRecordsOf b w) content \<longrightarrow>
        setup_cacheBank awaited isCancelled b content w
        = (Completed,
           w\<lparr>memories := filter (\<lambda>r. r_bank r \<noteq> b) (memories w)
                          @ freshRecords (nextKey w) b content embeddings,
             nextKey := nextKey w + length content,
             calls := calls w @ regenerationCalls b content embeddings\<rparr>))
   \<and> (length (cachedRecordsOf b w) \<noteq> length content
        \<and> currentBankContentOf memoryBanks customData b = Strings content \<longrightarrow>
        loadBank awaited isCancelled memoryBanks customData b w
        = (Completed, (if content = [] then None else Some embeddings),
           w\<lparr>memories := filter (\<lambda>r. r_bank r \<noteq> b) (memories w)
                          @ freshRecords (nextKey w) b content embeddings,
             nextKey := nextKey w + length content,
             calls := calls w @ regenerationCalls b content embeddings
                      @ (if content = [] then [] else [Call_getRecordsByBank b])\<rparr>))
   \<and> map r_text (freshRecords (nextKey w) b content embeddings) = content
   \<and> map r_embedding (freshRecords (nextKey w) b content embeddings) = embeddings
   \<and> map r_bank (freshRecords (nextKey w) b content embeddings) = replicate (length content) b
   \<and> (\<forall>i < length content.
         generateEmbedding_text awaited no_options (content ! i) = Inr (embeddings ! i))
   \<and> (length (cachedRecordsOf b w) = 5 \<and> length content = 5 \<and> k < 5
        \<and> r_text (cachedRecordsOf b w ! k) \<noteq> content ! k \<longrightarrow>
        (\<exists>w'. setup_cacheBank awaited isCancelled b content w = (Completed, w')
            \<and> calls w' = calls w @
                 [Call_getRecordsByBank b, Call_clearRecordsByBank b, Call_generateEmbedding content,
                  Call_addRecord b (content ! 0) (embeddings ! 0),
                  Call_addRecord b (content ! 1) (embeddings ! 1),
                  Call_addRecord b (content ! 2) (embeddings ! 2),
                  Call_addRecord b (content ! 3) (embeddings ! 3),
                  Call_addRecord b (content ! 4) (embeddings ! 4)]
            \<and> map r_text (cachedRecordsOf b w') = content
            \<and> map r_id (cachedRecordsOf b w')
                = [nextKey w, nextKey w + 1, nextKey w + 2, nextKey w + 3, nextKey w + 4]))"
proof -
  have len: "length embeddings = length content"
    by (rule generateEmbedding_length [OF provider])
  have banks: "map r_bank (freshRecords (nextKey w) b content embeddings)
               = replicate (length content) b"
    by (simp add: freshRecords_def comp_def map_replicate_const)
  have five: "\<exists>w'. setup_cacheBank awaited isCancelled b content w = (Completed, w')
            \<and> calls w' = calls w @
                 [Call_getRecordsByBank b, Call_clearRecordsByBank b, Call_generateEmbedding content,
                  Call_addRecord b (content ! 0) (embeddings ! 0),
                  Call_addRecord b (content ! 1) (embeddings ! 1),
                  Call_addRecord b (content ! 2) (embeddings ! 2),
                  Call_addRecord b (content ! 3) (embeddings ! 3),
                  Call_addRecord b (content ! 4) (embeddings ! 4)]
            \<and> map r_text (cachedRecordsOf b w') = content
            \<and> map r_id (cachedRecordsOf b w')
                = [nextKey w, nextKey w + 1, nextKey w + 2, nextKey w + 3, nextKey w + 4]"
    if c5: "length (cachedRecordsOf b w) = 5" and n5: "length content = 5" and k: "k < 5"
      and changed: "r_text (cachedRecordsOf b w ! k) \<noteq> content ! k"
  proof -
    from c5 k changed have stale: "needsGeneration (cachedRecordsOf b w) content"
      by (auto simp: needsGeneration_iff)
    have ids: "map r_id (freshRecords (nextKey w) b content embeddings)
                = [nextKey w, nextKey w + 1, nextKey w + 2, nextKey w + 3, nextKey w + 4]"
      by (simp add: freshRecords_def n5 upt_5)
    show ?thesis
      unfolding setup_cacheBank_regenerates [OF nofault nocancel provider stale]
      using ids freshRecords_fields(1) [OF len, of "nextKey w" b]
      by (simp add: cachedRecordsOf_def filter_freshRecords regenerationCalls_def n5 upt_5)
  qed
  have ordered: "\<forall>i < length content.
      generateEmbedding_text awaited no_options (content ! i) = Inr (embeddings ! i)"
    using generateEmbedding_nth [OF provider] by blast
  show ?thesis
    using setup_cacheBank_regenerates [OF nofault nocancel provider]
      loadBank_regenerates [OF nofault nocancel provider]
      freshRecords_fields [OF len] banks ordered five
    by blast
qed

lemma exampleWorld_abcde:
  "exampleWorld [''a'', ''b'', ''c'', ''d'', ''e'']
   = \<lparr>memories =
        [\<lparr>r_id = 1, r_text = ''a'', r_embedding = [0, 1], r_bank = ''General''\<rparr>,
         \<lparr>r_id = 2, r_text = ''b'', r_embedding = [0, 1], r_bank = ''General''\<rparr>,
         \<lparr>r_id = 3, r_text = ''c'', r_embedding = [0, 1], r_bank = ''General''\<rparr>,
         \<lparr>r_id = 4, r_text = ''d'', r_embedding = [0, 1], r_bank = ''General''\<rparr>,
         \<lparr>r_id = 5, r_text = ''e'', r_embedding = [0, 1], r_bank = ''General''\<rparr>],
      nextKey = 6, custom_banks = [], calls = [], rejected = (\<lambda>k. False)\<rparr>"
  by (simp add: exampleWorld_def upt_rec)

text \<open>
  C3: a bank found stale is regenerated whole, and in particular a change of exactly one
  entry of a bank of five entries has all five records deleted and five inserted. The
  bank-switch path breaks the particular case. With the five records a, b, c, d, e
  cached and the content a, b, x, d, e, the start-up path deletes the five records,
  embeds the five entries in one call and inserts five records in the order of the
  content; the bank-switch path, whose test at line 367 compares the two lengths only,
  issues the read alone, keeps the five records with the text c in the third, and hands
  on the five cached embeddings.
\<close>

theorem loadBank_keeps_bank_with_one_changed_entry:
  "map r_text (cachedRecordsOf ''General'' (exampleWorld [''a'', ''b'', ''c'', ''d'', ''e'']))
     = [''a'', ''b'', ''c'', ''d'', ''e'']
   \<and> setup_cacheBank (Inr exampleInstance) (\<lambda>k. False) ''General''
        [''a'', ''b'', ''x'', ''d'', ''e''] (exampleWorld [''a'', ''b'', ''c'', ''d'', ''e''])
      = (Completed,
         \<lparr>memories =
            [\<lparr>r_id = 6, r_text = ''a'', r_embedding = [1, 0], r_bank = ''General''\<rparr>,
             \<lparr>r_id = 7, r_text = ''b'', r_embedding = [1, 0], r_bank = ''General''\<rparr>,
             \<lparr>r_id = 8, r_text = ''x'', r_embedding = [1, 0], r_bank = ''General''\<rparr>,
             \<lparr>r_id = 9, r_text = ''d'', r_embedding = [1, 0], r_bank = ''General''\<rparr>,
             \<lparr>r_id = 10, r_text = ''e'', r_embedding = [1, 0], r_bank = ''General''\<rparr>],
          nextKey = 11, custom_banks = [],
          calls =
            [Call_getRecordsByBank ''General'', Call_clearRecordsByBank ''General'',
             Call_generateEmbedding [''a'', ''b'', ''x'', ''d'', ''e''],
             Call_addRecord ''General'' ''a'' [1, 0], Call_addRecord ''General'' ''b'' [1, 0],
             Call_addRecord ''General'' ''x'' [1, 0], Call_addRecord ''General'' ''d'' [1, 0],
             Call_addRecord ''General'' ''e'' [1, 0]],
          rejected = (\<lambda>k. False)\<rparr>)
   \<and> loadBank awaited (\<lambda>k. False) ((''General'', [''a'', ''b'', ''x'', ''d'', ''e'']) # memoryBanks)
        customData ''General'' (exampleWorld [''a'', ''b'', ''c'', ''d'', ''e''])
      = (Completed, Some [[0, 1], [0, 1], [0, 1], [0, 1], [0, 1]],
         \<lparr>memories =
            [\<lparr>r_id = 1, r_text = ''a'', r_embedding = [0, 1], r_bank = ''General''\<rparr>,
             \<lparr>r_id = 2, r_text = ''b'', r_embedding = [0, 1], r_bank = ''General''\<rparr>,
             \<lparr>r_id = 3, r_text = ''c'', r_embedding = [0, 1], r_bank = ''General''\<rparr>,
             \<lparr>r_id = 4, r_text = ''d'', r_embedding = [0, 1], r_bank = ''General''\<rparr>,
             \<lparr>r_id = 5, r_text = ''e'', r_embedding = [0, 1], r_bank = ''General''\<rparr>],
          nextKey = 6, custom_banks = [],
          calls = [Call_getRecordsByBank ''General''],
          rejected = (\<lambda>k. False)\<rparr>)"
proof -
  let ?w5 = "exampleWorld [''a'', ''b'', ''c'', ''d'', ''e'']"
  let ?c5 = "[''a'', ''b'', ''x'', ''d'', ''e'']"
  have nf5: "\<forall>k. \<not> rejected ?w5 k"
    by (simp add: exampleWorld_def)
  have nc: "\<forall>k. \<not> (\<lambda>k. False) k"
    by simp
  have cached: "map r_text (cachedRecordsOf ''General'' ?w5) = [''a'', ''b'', ''c'', ''d'', ''e'']"
    by (simp add: cachedRecordsOf_def exampleWorld_abcde)
  have stale5: "needsGeneration (cachedRecordsOf ''General'' ?w5) ?c5"
    by (simp add: needsGeneration_def cachedRecordsOf_def exampleWorld_abcde upt_rec)
  note run5 = setup_cacheBank_regenerates [OF nf5 nc exampleInstance_embeds(1) stale5]
  have eval5: "?w5\<lparr>memories := filter (\<lambda>r. r_bank r \<noteq> ''General'') (memories ?w5)
                          @ freshRecords (nextKey ?w5) ''General'' ?c5 [[1, 0], [1, 0], [1, 0], [1, 0], [1, 0]],
             nextKey := nextKey ?w5 + length ?c5,
             calls := calls ?w5 @ regenerationCalls ''General'' ?c5 [[1, 0], [1, 0], [1, 0], [1, 0], [1, 0]]\<rparr>
     = \<lparr>memories =
            [\<lparr>r_id = 6, r_text = ''a'', r_embedding = [1, 0], r_bank = ''General''\<rparr>,
             \<lparr>r_id = 7, r_text = ''b'', r_embedding = [1, 0], r_bank = ''General''\<rparr>,
             \<lparr>r_id = 8, r_text = ''x'', r_embedding = [1, 0], r_bank = ''General''\<rparr>,
             \<lparr>r_id = 9, r_text = ''d'', r_embedding = [1, 0], r_bank = ''General''\<rparr>,
             \<lparr>r_id = 10, r_text = ''e'', r_embedding = [1, 0], r_bank = ''General''\<rparr>],
          nextKey = 11, custom_banks = [],
          calls =
            [Call_getRecordsByBank ''General'', Call_clearRecordsByBank ''General'',
             Call_generateEmbedding [''a'', ''b'', ''x'', ''d'', ''e''],
             Call_addRecord ''General'' ''a'' [1, 0], Call_addRecord ''General'' ''b'' [1, 0],
             Call_addRecord ''General'' ''x'' [1, 0], Call_addRecord ''General'' ''d'' [1, 0],
             Call_addRecord ''General'' ''e'' [1, 0]],
          rejected = (\<lambda>k. False)\<rparr>"
    by (simp add: exampleWorld_abcde freshRecords_def regenerationCalls_def upt_rec)
  have load: "loadBank awaited (\<lambda>k. False) ((''General'', ?c5) # memoryBanks)
        customData ''General'' ?w5
      = (Completed, Some [[0, 1], [0, 1], [0, 1], [0, 1], [0, 1]],
         \<lparr>memories =
            [\<lparr>r_id = 1, r_text = ''a'', r_embedding = [0, 1], r_bank = ''General''\<rparr>,
             \<lparr>r_id = 2, r_text = ''b'', r_embedding = [0, 1], r_bank = ''General''\<rparr>,
             \<lparr>r_id = 3, r_text = ''c'', r_embedding = [0, 1], r_bank = ''General''\<rparr>,
             \<lparr>r_id = 4, r_text = ''d'', r_embedding = [0, 1], r_bank = ''General''\<rparr>,
             \<lparr>r_id = 5, r_text = ''e'', r_embedding = [0, 1], r_bank = ''General''\<rparr>],
          nextKey = 6, custom_banks = [],
          calls = [Call_getRecordsByBank ''General''],
          rejected = (\<lambda>k. False)\<rparr>)"
    by (simp add: exampleWorld_abcde loadBank_def currentBankContentOf_def property_def
        lengthOf_def getRecordsByBank_def issue_def)
  from cached run5 [unfolded eval5] load show ?thesis
    by (intro conjI)
qed

text \<open>
  C1: a bank is stale exactly when the number of cached records differs from the number
  of entries or some record's text differs from the entry at its position, on every
  synchronization path. The start-up path tests this (lemma \<open>needsGeneration_iff\<close>); the
  path run when the active bank changes compares the two lengths only. With one cached
  record of text \<open>old fact\<close> and the content \<open>new fact\<close> the start-up path regenerates
  the bank, and the bank-switch path issues the read alone and hands on the embedding
  cached for the old text, whatever the other built-in banks and the custom banks are.
\<close>

theorem loadBank_overlooks_changed_text:
  "needsGeneration (cachedRecordsOf ''General'' (exampleWorld [''old fact''])) [''new fact'']
   \<and> setup_cacheBank (Inr exampleInstance) (\<lambda>k. False) ''General'' [''new fact'']
        (exampleWorld [''old fact''])
      = (Completed,
         \<lparr>memories = [\<lparr>r_id = 2, r_text = ''new fact'', r_embedding = [1, 0], r_bank = ''General''\<rparr>],
          nextKey = 3, custom_banks = [],
          calls = [Call_getRecordsByBank ''General'', Call_clearRecordsByBank ''General'',
                   Call_generateEmbedding [''new fact''],
                   Call_addRecord ''General'' ''new fact'' [1, 0]],
          rejected = (\<lambda>k. False)\<rparr>)
   \<and> loadBank awaited (\<lambda>k. False) ((''General'', [''new fact'']) # memoryBanks) customData
        ''General'' (exampleWorld [''old fact''])
      = (Completed, Some [[0, 1]],
         \<lparr>memories = [\<lparr>r_id = 1, r_text = ''old fact'', r_embedding = [0, 1], r_bank = ''General''\<rparr>],
          nextKey = 2, custom_banks = [],
          calls = [Call_getRecordsByBank ''General''],
          rejected = (\<lambda>k. False)\<rparr>)"
proof -
  let ?w = "exampleWorld [''old fact'']"
  have w: "?w = \<lparr>memories = [\<lparr>r_id = 1, r_text = ''old fact'', r_embedding = [0, 1],
                               r_bank = ''General''\<rparr>],
                 nextKey = 2, custom_banks = [], calls = [], rejected = (\<lambda>k. False)\<rparr>"
    by (simp add: exampleWorld_def)
  have stale: "needsGeneration (cachedRecordsOf ''General'' ?w) [''new fact'']"
    by (simp add: w needsGeneration_def cachedRecordsOf_def)
  have emb: "generateEmbedding (Inr exampleInstance) no_options [''new fact''] = Inr [[1, 0]]"
    by (simp add: generateEmbedding_def generateEmbedding_text_def exampleInstance_def
        no_options_def trim_def isWhiteSpace_def isNaN_def valueOf_def)
  have add: "addRecords (\<lambda>k. False) 2 ''General'' [''new fact''] [[1, 0]] 0
               \<lparr>memories = [], nextKey = 2, custom_banks = [],
                calls = [Call_getRecordsByBank ''General'', Call_clearRecordsByBank ''General'',
                         Call_generateEmbedding [''new fact'']],
                rejected = (\<lambda>k. False)\<rparr>
             = (Completed,
                \<lparr>memories = [\<lparr>r_id = 2, r_text = ''new fact'', r_embedding = [1, 0],
                               r_bank = ''General''\<rparr>],
                 nextKey = 3, custom_banks = [],
                 calls = [Call_getRecordsByBank ''General'', Call_clearRecordsByBank ''General'',
                          Call_generateEmbedding [''new fact''],
                          Call_addRecord ''General'' ''new fact'' [1, 0]],
                 rejected = (\<lambda>k. False)\<rparr>)"
    by (simp add: addRecords.simps [of _ _ _ _ _ 0] addRecords.simps [of _ _ _ _ _ "Suc 0"]
        addRecord_def issue_def)
  have start: "setup_cacheBank (Inr exampleInstance) (\<lambda>k. False) ''General'' [''new fact''] ?w
      = (Completed,
         \<lparr>memories = [\<lparr>r_id = 2, r_text = ''new fact'', r_embedding = [1, 0], r_bank = ''General''\<rparr>],
          nextKey = 3, custom_banks = [],
          calls = [Call_getRecordsByBank ''General'', Call_clearRecordsByBank ''General'',
                   Call_generateEmbedding [''new fact''],
                   Call_addRecord ''General'' ''new fact'' [1, 0]],
          rejected = (\<lambda>k. False)\<rparr>)"
    by (simp add: w setup_cacheBank_def getRecordsByBank_def clearRecordsByBank_def issue_def
        needsGeneration_def emb add)
  have load: "loadBank awaited (\<lambda>k. False) ((''General'', [''new fact'']) # memoryBanks)
        customData ''General'' ?w
      = (Completed, Some [[0, 1]],
         \<lparr>memories = [\<lparr>r_id = 1, r_text = ''old fact'', r_embedding = [0, 1], r_bank = ''General''\<rparr>],
          nextKey = 2, custom_banks = [],
          calls = [Call_getRecordsByBank ''General''],
          rejected = (\<lambda>k. False)\<rparr>)"
    by (simp add: w loadBank_def currentBankContentOf_def property_def lengthOf_def
        getRecordsByBank_def issue_def)
  from stale start load show ?thesis
    by (intro conjI)
qed

text \<open>The same run when the provider is not even initialized: the bank-switch path never calls it.\<close>

theorem loadBank_overlooks_changed_text_witness:
  "needsGeneration (cachedRecordsOf ''General'' (exampleWorld [''old fact''])) [''new fact'']
   \<and> loadBank (Inl ProviderError) (\<lambda>k. False) [(''General'', [''new fact''])] []
        ''General'' (exampleWorld [''old fact''])
      = (Completed, Some [[0, 1]],
         \<lparr>memories = [\<lparr>r_id = 1, r_text = ''old fact'', r_embedding = [0, 1], r_bank = ''General''\<rparr>],
          nextKey = 2, custom_banks = [],
          calls = [Call_getRecordsByBank ''General''],
          rejected = (\<lambda>k. False)\<rparr>)"
  using loadBank_overlooks_changed_text
      [where awaited = "Inl ProviderError" and memoryBanks = "[]" and customData = "[]"]
  by (intro conjI) (elim conjE, assumption)+

subsection \<open>Custom banks\<close>

lemma newBankContentOf_nonEmptyLines: "newBankContentOf txt = map trim (nonEmptyLines txt)"
  by (simp add: newBankContentOf_def nonEmptyLines_def filter_map comp_def)

lemma length_newBankContentOf: "length (newBankContentOf txt) = length (nonEmptyLines txt)"
  by (simp add: newBankContentOf_nonEmptyLines)


lemma handleSave_rejects_long:
  "20 < length (nonEmptyLines inputText) \<Longrightarrow>
   \<exists>message. handleSave existingNames bankName inputText = Inl message"
  by (auto simp: handleSave_def Let_def nonEmptyLines_def)

lemma handleSave_accepts:
  "trim bankName \<noteq> [] \<Longrightarrow> toLowerCase (trim bankName) \<notin> set existingNames \<Longrightarrow>
   0 < length (nonEmptyLines inputText) \<Longrightarrow> length (nonEmptyLines inputText) \<le> 20 \<Longrightarrow>
   handleSave existingNames bankName inputText = Inr (trim bankName, inputText)"
  by (auto simp: handleSave_def Let_def nonEmptyLines_def)


lemma saveCustomBank_accepted:
  "\<not> rejected w (length (calls w)) \<Longrightarrow>
   saveCustomBank name content w
     = (Inr name, w\<lparr>custom_banks := AList.update name content (custom_banks w),
                    calls := calls w @ [Call_saveCustomBank name content]\<rparr>)"
  by (simp add: saveCustomBank_def issue_def)

lemma getCustomBank_accepted:
  "\<not> rejected w (length (calls w)) \<Longrightarrow>
   getCustomBank name w
     = (Inr (map_of (custom_banks w) name), w\<lparr>calls := calls w @ [Call_getCustomBank name]\<rparr>)"
  by (simp add: getCustomBank_def issue_def)

lemma getAllCustomBankNames_accepted:
  "\<not> rejected w (length (calls w)) \<Longrightarrow>
   getAllCustomBankNames w
     = (Inr (map fst (custom_banks w)), w\<lparr>calls := calls w @ [Call_getAllCustomBankNames]\<rparr>)"
  by (simp add: getAllCustomBankNames_def issue_def)


lemma addRecord_calls:
  "calls (snd (addRecord b t e w)) = calls w @ [Call_addRecord b t e]"
  by (simp add: addRecord_def issue_def)

lemma addRecords_calls:
  "\<exists>later. calls (snd (addRecords isCancelled c b texts embs j w)) = calls w @ later"
proof (induction "length texts - j" arbitrary: j w)
  case 0
  then show ?case
    by (subst addRecords.simps) simp
next
  case (Suc n)
  from Suc.hyps(2) have j: "j < length texts" and n: "n = length texts - Suc j"
    by simp_all
  obtain r w1 where a: "addRecord b (texts ! j) (embs ! j) w = (r, w1)"
    by (cases "addRecord b (texts ! j) (embs ! j) w")
  with addRecord_calls [of b "texts ! j" "embs ! j" w]
  have c1: "calls w1 = calls w @ [Call_addRecord b (texts ! j) (embs ! j)]"
    by simp
  from Suc.hyps(1) [OF n, of w1] obtain later where
    rest: "calls (snd (addRecords isCancelled c b texts embs (Suc j) w1)) = calls w1 @ later"
    by blast
  from j a c1 rest show ?case
    by (subst addRecords.simps) (cases r; simp)
qed

lemma saveCustomBank_calls:
  "calls (snd (saveCustomBank name content w)) = calls w @ [Call_saveCustomBank name content]"
  by (simp add: saveCustomBank_def issue_def)

lemma handleSaveCustomBank_requests_embedding:
  assumes "newBankContentOf txt \<noteq> []"
  shows "\<exists>later. calls (snd (snd (handleSaveCustomBank awaited name txt a w)))
                 = calls w @ Call_generateEmbedding (newBankContentOf txt) # later"
proof -
  let ?c = "newBankContentOf txt"
  let ?w1 = "w\<lparr>calls := calls w @ [Call_generateEmbedding ?c]\<rparr>"
  show ?thesis
  proof (cases "generateEmbedding awaited no_options ?c")
    case (Inl e)
    with assms show ?thesis
      by (simp add: handleSaveCustomBank_def newBankContentOf_def [symmetric] Let_def)
  next
    case (Inr embeddings)
    obtain r w2 where s: "saveCustomBank name ?c ?w1 = (r, w2)"
      by (cases "saveCustomBank name ?c ?w1")
    with saveCustomBank_calls [of name ?c ?w1]
    have c2: "calls w2 = calls w @ [Call_generateEmbedding ?c, Call_saveCustomBank name ?c]"
      by simp
    obtain out w3 where r3: "addRecords (\<lambda>k. False) 0 name ?c embeddings 0 w2 = (out, w3)"
      by (cases "addRecords (\<lambda>k. False) 0 name ?c embeddings 0 w2")
    with addRecords_calls [of "\<lambda>k. False" 0 name ?c embeddings 0 w2]
    obtain later where c3: "calls w3 = calls w2 @ later"
      by auto
    from assms Inr s c2 r3 c3 show ?thesis
      by (cases r; cases out)
         (simp_all add: handleSaveCustomBank_def newBankContentOf_def [symmetric] Let_def)
  qed
qed

lemma handleSaveCustomBank_completes:
  assumes nofault: "\<forall>k. \<not> rejected w k"
    and provider: "generateEmbedding awaited no_options (newBankContentOf txt) = Inr embeddings"
    and nonempty: "newBankContentOf txt \<noteq> []"
  shows "handleSaveCustomBank awaited name txt a w
         = (Completed,
            a\<lparr>availableBanks := availableBanks a @ [name],
              customBankData := AList.update name (newBankContentOf txt) (customBankData a),
              activeBank := name\<rparr>,
            w\<lparr>memories := memories w @ freshRecords (nextKey w) name (newBankContentOf txt) embeddings,
              nextKey := nextKey w + length (newBankContentOf txt),
              custom_banks := AList.update name (newBankContentOf txt) (custom_banks w),
              calls := calls w @
                [Call_generateEmbedding (newBankContentOf txt),
                 Call_saveCustomBank name (newBankContentOf txt)]
                @ map (\<lambda>i. Call_addRecord name (newBankContentOf txt ! i) (embeddings ! i))
                    [0 ..< length (newBankContentOf txt)]\<rparr>)"
proof -
  let ?c = "newBankContentOf txt"
  let ?w1 = "w\<lparr>calls := calls w @ [Call_generateEmbedding ?c]\<rparr>"
  let ?w2 = "?w1\<lparr>custom_banks := AList.update name ?c (custom_banks ?w1),
                 calls := calls ?w1 @ [Call_saveCustomBank name ?c]\<rparr>"
  have s: "saveCustomBank name ?c ?w1 = (Inr name, ?w2)"
    using nofault by (simp add: saveCustomBank_accepted)
  have nf2: "\<forall>k. \<not> rejected ?w2 k"
    using nofault by simp
  have nc: "\<forall>k. \<not> (\<lambda>k. False) k"
    by simp
  have len: "length embeddings = length ?c"
    by (rule generateEmbedding_length [OF provider])
  with nonempty have ne: "embeddings \<noteq> []"
    by auto
  from addRecords_completes [OF nc nf2, of 0 name ?c embeddings 0] ne nonempty provider
  show ?thesis
    by (simp add: handleSaveCustomBank_def newBankContentOf_def [symmetric] s newRecords_0
        addCalls_def Let_def)
qed

lemma update_fresh_key:
  "k \<notin> fst ` set al \<Longrightarrow> AList.update k v al = al @ [(k, v)]"
  by (induction al) auto

lemma loadCustomData_accepted:
  assumes "\<forall>k. \<not> rejected w k"
    and "\<forall>(k, v) \<in> set xs. map_of (custom_banks w) k = Some v"
    and "distinct (map fst xs)" and "fst ` set xs \<inter> fst ` set acc = {}"
  shows "loadCustomData (map fst xs) acc w
         = (Inr (acc @ xs), w\<lparr>calls := calls w @ map Call_getCustomBank (map fst xs)\<rparr>)"
  using assms
proof (induction xs arbitrary: acc w)
  case Nil
  then show ?case by simp
next
  case (Cons x xs)
  obtain k v where x: "x = (k, v)"
    by (cases x)
  let ?w1 = "w\<lparr>calls := calls w @ [Call_getCustomBank k]\<rparr>"
  from Cons.prems x have g: "getCustomBank k w = (Inr (Some v), ?w1)"
    by (simp add: getCustomBank_accepted)
  from Cons.prems x have fresh: "k \<notin> fst ` set acc"
    by auto
  have "loadCustomData (map fst xs) (acc @ [(k, v)]) ?w1
        = (Inr ((acc @ [(k, v)]) @ xs), ?w1\<lparr>calls := calls ?w1 @ map Call_getCustomBank (map fst xs)\<rparr>)"
    using Cons.prems x by (intro Cons.IH) auto
  with g fresh x show ?case
    by (simp add: update_fresh_key)
qed

lemma setup_loadCustomBanks_accepted:
  assumes nofault: "\<forall>k. \<not> rejected w k" and keys: "distinct (map fst (custom_banks w))"
  shows "setup_loadCustomBanks a w
         = (Completed,
            (if custom_banks w = [] then a
             else a\<lparr>availableBanks := memoryBankNames @ map fst (custom_banks w),
                    customBankData := custom_banks w\<rparr>),
            w\<lparr>calls := calls w @ Call_getAllCustomBankNames
                              # (map Call_getCustomBank (map fst (custom_banks w)))\<rparr>)"
proof -
  let ?w1 = "w\<lparr>calls := calls w @ [Call_getAllCustomBankNames]\<rparr>"
  have g: "getAllCustomBankNames w = (Inr (map fst (custom_banks w)), ?w1)"
    using nofault by (simp add: getAllCustomBankNames_accepted)
  have nf1: "\<forall>k. \<not> rejected ?w1 k"
    using nofault by simp
  have stored: "\<forall>(k, v) \<in> set (custom_banks w). map_of (custom_banks ?w1) k = Some v"
    using keys by auto
  have l: "loadCustomData (map fst (custom_banks w)) [] ?w1
           = (Inr ([] @ custom_banks w),
              ?w1\<lparr>calls := calls ?w1 @ map Call_getCustomBank (map fst (custom_banks w))\<rparr>)"
    using keys by (intro loadCustomData_accepted [OF nf1 stored]) simp_all
  show ?thesis
    using l by (simp add: setup_loadCustomBanks_def g)
qed

text \<open>
  C4: synchronizing a bank whose cached records match its declared content performs no
  write. The bank-switch path breaks this for a custom bank named like a property of
  \<open>Object.prototype\<close>. The user saves a bank named \<open>constructor\<close> with the two facts a and
  b: the store then holds the bank and two records with exactly these texts. When the
  bank becomes active, line 365 reads \<open>memoryBanks[''constructor'']\<close>, the inherited
  function of length 1, instead of the bank's content; line 367 finds 2 different from
  1, line 368 deletes both records, and \<open>generateEmbedding\<close>, given the function, throws.
  The bank is left with no record.
\<close>

theorem loadBank_clears_matching_bank_named_constructor:
  "saveBankClicked (Inr exampleInstance) ''constructor'' [CHR ''a'', CHR 0x0A, CHR ''b'']
       (initialApp, exampleWorld [])
     = (OnSave Completed, constructorApp, constructorWorld)
   \<and> map_of (custom_banks constructorWorld) ''constructor'' = Some [''a'', ''b'']
   \<and> map r_text (cachedRecordsOf ''constructor'' constructorWorld) = [''a'', ''b'']
   \<and> currentBankContentOf (exampleBanks content) (customBankData constructorApp)
        (activeBank constructorApp) = Function 1
   \<and> loadBank (Inr exampleInstance) (\<lambda>k. False) (exampleBanks content)
        (customBankData constructorApp) (activeBank constructorApp) constructorWorld
     = (Failed TypeError, None,
        constructorWorld
          \<lparr>memories := [],
           calls := calls constructorWorld @
             [Call_getRecordsByBank ''constructor'', Call_clearRecordsByBank ''constructor'',
              Call_generateEmbedding_of (Function 1)]\<rparr>)"
proof -
  have lines: "nonEmptyLines [CHR ''a'', CHR 0x0A, CHR ''b''] = [''a'', ''b'']"
    "newBankContentOf [CHR ''a'', CHR 0x0A, CHR ''b''] = [''a'', ''b'']"
    "trim ''constructor'' = ''constructor''"
    "toLowerCase ''constructor'' \<notin> set (map toLowerCase (availableBanks initialApp))"
    by (code_simp+)
  have hs: "handleSave (map toLowerCase (availableBanks initialApp)) ''constructor''
              [CHR ''a'', CHR 0x0A, CHR ''b'']
            = Inr (''constructor'', [CHR ''a'', CHR 0x0A, CHR ''b''])"
    using handleSave_accepts [of "''constructor''" "map toLowerCase (availableBanks initialApp)"
        "[CHR ''a'', CHR 0x0A, CHR ''b'']"] lines
    by simp
  have nf: "\<forall>k. \<not> rejected (exampleWorld []) k"
    by (simp add: exampleWorld_def)
  have pr: "generateEmbedding (Inr exampleInstance) no_options
              (newBankContentOf [CHR ''a'', CHR 0x0A, CHR ''b'']) = Inr [[1, 0], [1, 0]]"
    and ne: "newBankContentOf [CHR ''a'', CHR 0x0A, CHR ''b''] \<noteq> []"
    by (simp_all add: lines exampleInstance_embeds)
  have saved: "saveBankClicked (Inr exampleInstance) ''constructor'' [CHR ''a'', CHR 0x0A, CHR ''b'']
       (initialApp, exampleWorld [])
     = (OnSave Completed, constructorApp, constructorWorld)"
  proof -
    from handleSaveCustomBank_completes [OF nf pr ne, of "''constructor''" initialApp]
    have "handleSaveCustomBank (Inr exampleInstance) ''constructor''
            [CHR ''a'', CHR 0x0A, CHR ''b''] initialApp (exampleWorld [])
          = (Completed, constructorApp, constructorWorld)"
      by (simp add: lines constructorApp_def constructorWorld_def initialApp_def
          exampleWorld_empty freshRecords_def upt_rec)
    then show ?thesis
      by (simp add: saveBankClicked_def hs)
  qed
  have stored: "map_of (custom_banks constructorWorld) ''constructor'' = Some [''a'', ''b'']"
    and cached: "map r_text (cachedRecordsOf ''constructor'' constructorWorld) = [''a'', ''b'']"
    by (simp_all add: constructorWorld_def cachedRecordsOf_def)
  have read: "currentBankContentOf (exampleBanks content) (customBankData constructorApp)
        (activeBank constructorApp) = Function 1"
    by (simp add: currentBankContentOf_def property_def Object_prototype_def exampleBanks_def
        constructorApp_def)
  have load: "loadBank (Inr exampleInstance) (\<lambda>k. False) (exampleBanks content)
        (customBankData constructorApp) (activeBank constructorApp) constructorWorld
     = (Failed TypeError, None,
        constructorWorld
          \<lparr>memories := [],
           calls := calls constructorWorld @
             [Call_getRecordsByBank ''constructor'', Call_clearRecordsByBank ''constructor'',
              Call_generateEmbedding_of (Function 1)]\<rparr>)"
    unfolding loadBank_def read
    by (simp add: constructorApp_def constructorWorld_def getRecordsByBank_def
        clearRecordsByBank_def issue_def lengthOf_def generateEmbedding_of_def embeddingCall_def)
  from saved stored cached read load show ?thesis
    by (intro conjI)
qed

text \<open>
  C7: a click on the save button with more than 20 non-empty lines ends in an error
  message with the application state and the database as they were, so no embedding call
  was issued; with exactly 20 non-empty lines and an acceptable name \<open>handleSave\<close> calls
  \<open>onSave\<close>, whose first call is the embedding of the 20 entries, and when the store and
  the provider answer the bank is saved with 20 records. The limit is checked nowhere
  else: a bank whose content, as line 365 reads it, has more than 20 entries is
  synchronized whole when it becomes active, and a stored bank is loaded whole on a
  reload.
\<close>

theorem custom_bank_limit_at_creation:
  "(20 < length (nonEmptyLines inputText) \<longrightarrow>
      (\<exists>message. saveBankClicked awaited bankName inputText (a, w) = (ModalError message, a, w)))
   \<and> (length (nonEmptyLines inputText) = 20 \<and> trim bankName \<noteq> []
        \<and> toLowerCase (trim bankName) \<notin> set (map toLowerCase (availableBanks a)) \<longrightarrow>
      handleSave (map toLowerCase (availableBanks a)) bankName inputText
        = Inr (trim bankName, inputText)
      \<and> length (newBankContentOf inputText) = 20
      \<and> (\<exists>later. calls (snd (snd (saveBankClicked awaited bankName inputText (a, w))))
                    = calls w @ Call_generateEmbedding (newBankContentOf inputText) # later)
      \<and> ((\<forall>k. \<not> rejected w k)
           \<and> generateEmbedding awaited no_options (newBankContentOf inputText) = Inr embeddings \<longrightarrow>
          saveBankClicked awaited bankName inputText (a, w)
          = (OnSave Completed,
             a\<lparr>availableBanks := availableBanks a @ [trim bankName],
               customBankData :=
                 AList.update (trim bankName) (newBankContentOf inputText) (customBankData a),
               activeBank := trim bankName\<rparr>,
             w\<lparr>memories := memories w @
                   freshRecords (nextKey w) (trim bankName) (newBankContentOf inputText) embeddings,
               nextKey := nextKey w + 20,
               custom_banks :=
                 AList.update (trim bankName) (newBankContentOf inputText) (custom_banks w),
               calls := calls w @
                 [Call_generateEmbedding (newBankContentOf inputText),
                  Call_saveCustomBank (trim bankName) (newBankContentOf inputText)]
                 @ map (\<lambda>i. Call_addRecord (trim bankName) (newBankContentOf inputText ! i)
                                (embeddings ! i)) [0 ..< 20]\<rparr>)))
   \<and> ((\<forall>k. \<not> rejected w k) \<and> (\<forall>k. \<not> isCancelled k) \<and> 20 < length content
        \<and> currentBankContentOf memoryBanks customData b = Strings content
        \<and> generateEmbedding awaited no_options content = Inr vectors
        \<and> length (cachedRecordsOf b w) \<noteq> length content \<longrightarrow>
      loadBank awaited isCancelled memoryBanks customData b w
      = (Completed, Some vectors,
         w\<lparr>memories := filter (\<lambda>r. r_bank r \<noteq> b) (memories w)
                        @ freshRecords (nextKey w) b content vectors,
           nextKey := nextKey w + length content,
           calls := calls w @ regenerationCalls b content vectors @ [Call_getRecordsByBank b]\<rparr>))
   \<and> ((\<forall>k. \<not> rejected w k) \<and> distinct (map fst (custom_banks w)) \<and> custom_banks w \<noteq> [] \<longrightarrow>
      customBankData (fst (step awaited Reload (a, w))) = custom_banks w)"
proof -
  have long: "\<exists>message. saveBankClicked awaited bankName inputText (a, w) = (ModalError message, a, w)"
    if "20 < length (nonEmptyLines inputText)"
    using handleSave_rejects_long [OF that, of "map toLowerCase (availableBanks a)" bankName]
    by (auto simp: saveBankClicked_def)
  have twenty:
    "handleSave (map toLowerCase (availableBanks a)) bankName inputText
        = Inr (trim bankName, inputText)
      \<and> length (newBankContentOf inputText) = 20
      \<and> (\<exists>later. calls (snd (snd (saveBankClicked awaited bankName inputText (a, w))))
                    = calls w @ Call_generateEmbedding (newBankContentOf inputText) # later)
      \<and> ((\<forall>k. \<not> rejected w k)
           \<and> generateEmbedding awaited no_options (newBankContentOf inputText) = Inr embeddings \<longrightarrow>
          saveBankClicked awaited bankName inputText (a, w)
          = (OnSave Completed,
             a\<lparr>availableBanks := availableBanks a @ [trim bankName],
               customBankData :=
                 AList.update (trim bankName) (newBankContentOf inputText) (customBankData a),
               activeBank := trim bankName\<rparr>,
             w\<lparr>memories := memories w @
                   freshRecords (nextKey w) (trim bankName) (newBankContentOf inputText) embeddings,
               nextKey := nextKey w + 20,
               custom_banks :=
                 AList.update (trim bankName) (newBankContentOf inputText) (custom_banks w),
               calls := calls w @
                 [Call_generateEmbedding (newBankContentOf inputText),
                  Call_saveCustomBank (trim bankName) (newBankContentOf inputText)]
                 @ map (\<lambda>i. Call_addRecord (trim bankName) (newBankContentOf inputText ! i)
                                (embeddings ! i)) [0 ..< 20]\<rparr>))"
    if n: "length (nonEmptyLines inputText) = 20" and name: "trim bankName \<noteq> []"
      and free: "toLowerCase (trim bankName) \<notin> set (map toLowerCase (availableBanks a))"
  proof -
    have hs: "handleSave (map toLowerCase (availableBanks a)) bankName inputText
                = Inr (trim bankName, inputText)"
      using n by (intro handleSave_accepts [OF name free]) simp_all
    have len: "length (newBankContentOf inputText) = 20"
      using n by (simp add: length_newBankContentOf)
    then have ne: "newBankContentOf inputText \<noteq> []"
      by auto
    have first: "\<exists>later. calls (snd (snd (saveBankClicked awaited bankName inputText (a, w))))
                    = calls w @ Call_generateEmbedding (newBankContentOf inputText) # later"
      using handleSaveCustomBank_requests_embedding [OF ne, of awaited "trim bankName" a w]
      by (auto simp: saveBankClicked_def hs split: prod.splits)
    have completed: "saveBankClicked awaited bankName inputText (a, w)
          = (OnSave Completed,
             a\<lparr>availableBanks := availableBanks a @ [trim bankName],
               customBankData :=
                 AList.update (trim bankName) (newBankContentOf inputText) (customBankData a),
               activeBank := trim bankName\<rparr>,
             w\<lparr>memories := memories w @
                   freshRecords (nextKey w) (trim bankName) (newBankContentOf inputText) embeddings,
               nextKey := nextKey w + 20,
               custom_banks :=
                 AList.update (trim bankName) (newBankContentOf inputText) (custom_banks w),
               calls := calls w @
                 [Call_generateEmbedding (newBankContentOf inputText),
                  Call_saveCustomBank (trim bankName) (newBankContentOf inputText)]
                 @ map (\<lambda>i. Call_addRecord (trim bankName) (newBankContentOf inputText ! i)
                                (embeddings ! i)) [0 ..< 20]\<rparr>)"
      if nf: "\<forall>k. \<not> rejected w k"
        and pr: "generateEmbedding awaited no_options (newBankContentOf inputText) = Inr embeddings"
      using handleSaveCustomBank_completes [OF nf pr ne, of "trim bankName" a]
      by (simp add: saveBankClicked_def hs len)
    from hs len first completed show ?thesis
      by blast
  qed
  have retro: "loadBank awaited isCancelled memoryBanks customData b w
      = (Completed, Some vectors,
         w\<lparr>memories := filter (\<lambda>r. r_bank r \<noteq> b) (memories w)
                        @ freshRecords (nextKey w) b content vectors,
           nextKey := nextKey w + length content,
           calls := calls w @ regenerationCalls b content vectors @ [Call_getRecordsByBank b]\<rparr>)"
    if "\<forall>k. \<not> rejected w k" "\<forall>k. \<not> isCancelled k" "20 < length content"
      "currentBankContentOf memoryBanks customData b = Strings content"
      "generateEmbedding awaited no_options content = Inr vectors"
      "length (cachedRecordsOf b w) \<noteq> length content"
  proof -
    from that(3) have "content \<noteq> []"
      by auto
    with loadBank_regenerates [OF that(1,2,5,6,4)] show ?thesis
      by simp
  qed
  have reload: "customBankData (fst (step awaited Reload (a, w))) = custom_banks w"
    if "\<forall>k. \<not> rejected w k" "distinct (map fst (custom_banks w))" "custom_banks w \<noteq> []"
    using that by (simp add: setup_loadCustomBanks_accepted)
  show ?thesis
    using long twenty retro reload by blast
qed

text \<open>
  The theorem at inputs of 21 and of 20 lines for a new bank named Mine, and at a stored
  bank of 21 entries.
\<close>

lemma exampleLines_count:
  "length (nonEmptyLines (exampleLines 21)) = 21"
  "length (nonEmptyLines (exampleLines 20)) = 20"
  "newBankContentOf (exampleLines 20) = replicate 20 ''f''"
  by (code_simp+)

lemma example_name:
  "trim ''Mine'' = ''Mine''"
  "toLowerCase ''Mine'' \<notin> set (map toLowerCase (availableBanks initialApp))"
  by (code_simp+)

lemma exampleInstance_embeds_all:
  "generateEmbedding (Inr exampleInstance) no_options (replicate n ''f'') = Inr (replicate n [1, 0])"
proof -
  have one: "generateEmbedding_text (Inr exampleInstance) no_options ''f'' = Inr [1, 0]"
    by (simp add: generateEmbedding_text_def exampleInstance_def no_options_def trim_def
        isWhiteSpace_def isNaN_def valueOf_def)
  have "generateEmbedding_each (Inr exampleInstance) no_options (replicate n ''f'')
        = Inr (replicate n [1, 0])"
    by (induction n) (simp_all add: one)
  then show ?thesis
    by (simp add: generateEmbedding_def)
qed

theorem custom_bank_limit_at_creation_witness:
  "20 < length (nonEmptyLines (exampleLines 21))
   \<and> (\<exists>message. saveBankClicked (Inr exampleInstance) ''Mine'' (exampleLines 21)
                   (initialApp, exampleWorld [])
                 = (ModalError message, initialApp, exampleWorld []))
   \<and> length (nonEmptyLines (exampleLines 20)) = 20
   \<and> trim ''Mine'' \<noteq> []
   \<and> toLowerCase (trim ''Mine'') \<notin> set (map toLowerCase (availableBanks initialApp))
   \<and> generateEmbedding (Inr exampleInstance) no_options (newBankContentOf (exampleLines 20))
       = Inr (replicate 20 [1, 0])
   \<and> fst (saveBankClicked (Inr exampleInstance) ''Mine'' (exampleLines 20)
            (initialApp, exampleWorld [])) = OnSave Completed
   \<and> availableBanks (fst (snd (saveBankClicked (Inr exampleInstance) ''Mine'' (exampleLines 20)
                                 (initialApp, exampleWorld []))))
       = memoryBankNames @ [''Mine'']
   \<and> length (memories (snd (snd (saveBankClicked (Inr exampleInstance) ''Mine'' (exampleLines 20)
                                    (initialApp, exampleWorld []))))) = 20
   \<and> 20 < length (replicate 21 ''f'')
   \<and> currentBankContentOf (exampleBanks []) [(''Mine'', replicate 21 ''f'')] ''Mine''
       = Strings (replicate 21 ''f'')
   \<and> length (cachedRecordsOf ''Mine'' (exampleWorld [])) \<noteq> length (replicate 21 ''f'')
   \<and> fst (loadBank (Inr exampleInstance) (\<lambda>k. False) (exampleBanks [])
             [(''Mine'', replicate 21 ''f'')] ''Mine'' (exampleWorld []))
       = Completed
   \<and> length (memories (snd (snd (loadBank (Inr exampleInstance) (\<lambda>k. False) (exampleBanks [])
                                    [(''Mine'', replicate 21 ''f'')] ''Mine'' (exampleWorld [])))))
       = 21
   \<and> customBankData
        (fst (step (Inr exampleInstance) Reload
                (initialApp, (exampleWorld [])\<lparr>custom_banks := [(''Mine'', replicate 21 ''f'')]\<rparr>)))
       = [(''Mine'', replicate 21 ''f'')]"
proof -
  let ?w = "exampleWorld []"
  let ?ws = "?w\<lparr>custom_banks := [(''Mine'', replicate 21 ''f'')]\<rparr>"
  have nf: "\<forall>k. \<not> rejected ?w k" and nfs: "\<forall>k. \<not> rejected ?ws k"
    by (simp_all add: exampleWorld_def)
  have nc: "\<forall>k. \<not> (\<lambda>k. False) k"
    by simp
  have h21: "20 < length (nonEmptyLines (exampleLines 21))"
    by (simp add: exampleLines_count)
  have name: "trim ''Mine'' \<noteq> []"
    "toLowerCase (trim ''Mine'') \<notin> set (map toLowerCase (availableBanks initialApp))"
    using example_name by simp_all
  have pr: "generateEmbedding (Inr exampleInstance) no_options (newBankContentOf (exampleLines 20))
       = Inr (replicate 20 [1, 0])"
    by (simp add: exampleLines_count exampleInstance_embeds_all)
  have stale: "length (cachedRecordsOf ''Mine'' ?w) \<noteq> length (replicate 21 ''f'')"
    by (simp add: cachedRecordsOf_def exampleWorld_empty)
  have keys: "distinct (map fst (custom_banks ?ws))" "custom_banks ?ws \<noteq> []"
    by simp_all
  have read: "currentBankContentOf (exampleBanks []) [(''Mine'', replicate 21 ''f'')] ''Mine''
       = Strings (replicate 21 ''f'')"
    by (simp add: currentBankContentOf_def property_def Object_prototype_def exampleBanks_def)
  note long = custom_bank_limit_at_creation
      [where inputText = "exampleLines 21" and awaited = "Inr exampleInstance"
         and bankName = "''Mine''" and a = initialApp and w = ?w]
  note twenty = custom_bank_limit_at_creation
      [where inputText = "exampleLines 20" and awaited = "Inr exampleInstance"
         and bankName = "''Mine''" and a = initialApp and w = ?w
         and embeddings = "replicate 20 [1, 0]" and isCancelled = "\<lambda>k. False"
         and content = "replicate 21 ''f''" and vectors = "replicate 21 [1, 0]" and b = "''Mine''"
         and memoryBanks = "exampleBanks []"
         and customData = "[(''Mine'', replicate 21 ''f'')]"]
  note reload = custom_bank_limit_at_creation
      [where awaited = "Inr exampleInstance" and a = initialApp and w = ?ws]
  from long h21 have a: "\<exists>message. saveBankClicked (Inr exampleInstance) ''Mine'' (exampleLines 21)
                   (initialApp, ?w) = (ModalError message, initialApp, ?w)"
    by blast
  from twenty exampleLines_count(2) name nf pr
  have b: "saveBankClicked (Inr exampleInstance) ''Mine'' (exampleLines 20) (initialApp, ?w)
          = (OnSave Completed,
             initialApp\<lparr>availableBanks := availableBanks initialApp @ [trim ''Mine''],
               customBankData :=
                 AList.update (trim ''Mine'') (newBankContentOf (exampleLines 20)) (customBankData initialApp),
               activeBank := trim ''Mine''\<rparr>,
             ?w\<lparr>memories := memories ?w @
                   freshRecords (nextKey ?w) (trim ''Mine'') (newBankContentOf (exampleLines 20)) (replicate 20 [1, 0]),
               nextKey := nextKey ?w + 20,
               custom_banks :=
                 AList.update (trim ''Mine'') (newBankContentOf (exampleLines 20)) (custom_banks ?w),
               calls := calls ?w @
                 [Call_generateEmbedding (newBankContentOf (exampleLines 20)),
                  Call_saveCustomBank (trim ''Mine'') (newBankContentOf (exampleLines 20))]
                 @ map (\<lambda>i. Call_addRecord (trim ''Mine'') (newBankContentOf (exampleLines 20) ! i)
                                (replicate 20 [1, 0] ! i)) [0 ..< 20]\<rparr>)"
    by blast
  from twenty nf nc stale read exampleInstance_embeds_all [of 21]
  have c: "loadBank (Inr exampleInstance) (\<lambda>k. False) (exampleBanks [])
             [(''Mine'', replicate 21 ''f'')] ''Mine'' ?w
      = (Completed, Some (replicate 21 [1, 0]),
         ?w\<lparr>memories := filter (\<lambda>r. r_bank r \<noteq> ''Mine'') (memories ?w)
                        @ freshRecords (nextKey ?w) ''Mine'' (replicate 21 ''f'') (replicate 21 [1, 0]),
           nextKey := nextKey ?w + length (replicate 21 ''f''),
           calls := calls ?w @ regenerationCalls ''Mine'' (replicate 21 ''f'') (replicate 21 [1, 0])
                    @ [Call_getRecordsByBank ''Mine'']\<rparr>)"
    by simp
  from reload nfs keys
  have d: "customBankData (fst (step (Inr exampleInstance) Reload (initialApp, ?ws))) = custom_banks ?ws"
    by blast
  have b1: "fst (saveBankClicked (Inr exampleInstance) ''Mine'' (exampleLines 20) (initialApp, ?w))
            = OnSave Completed"
    and b2: "availableBanks (fst (snd (saveBankClicked (Inr exampleInstance) ''Mine''
               (exampleLines 20) (initialApp, ?w)))) = memoryBankNames @ [''Mine'']"
    and b3: "length (memories (snd (snd (saveBankClicked (Inr exampleInstance) ''Mine''
               (exampleLines 20) (initialApp, ?w))))) = 20"
    unfolding b
    by (simp_all add: example_name initialApp_def exampleWorld_empty freshRecords_def
        exampleLines_count)
  have c1: "fst (loadBank (Inr exampleInstance) (\<lambda>k. False) (exampleBanks [])
                  [(''Mine'', replicate 21 ''f'')] ''Mine'' ?w)
            = Completed"
    and c2: "length (memories (snd (snd (loadBank (Inr exampleInstance) (\<lambda>k. False)
               (exampleBanks []) [(''Mine'', replicate 21 ''f'')] ''Mine'' ?w)))) = 21"
    unfolding c by (simp_all add: exampleWorld_empty freshRecords_def)
  from d have d1: "customBankData (fst (step (Inr exampleInstance) Reload (initialApp, ?ws)))
                   = [(''Mine'', replicate 21 ''f'')]"
    by simp
  from h21 a exampleLines_count(2) name pr b1 b2 b3 read stale c1 c2 d1 show ?thesis
    by simp
qed
















subsection \<open>Lazy singletons\<close>

lemma db_inv_initial: "db_inv db_initial"
  by (simp add: db_inv_def db_initial_def)

lemma db_inv_step: "db_inv m \<Longrightarrow> db_inv (db_step e m)"
  by (cases e)
     (auto simp: db_inv_def openDB_def onsuccess_def onerror_def settle_def Let_def nth_append
        split: option.splits if_splits)

lemma db_inv_run: "db_inv m \<Longrightarrow> db_inv (db_run events m)"
  unfolding db_run_def by (induction events arbitrary: m) (simp_all add: db_inv_step)

lemma db_settled_step:
  assumes "db_inv m" and "dbPromise m = Some p" and "dbPromises m ! p \<noteq> Pending"
  shows "db_step e m = m"
  using assms
  by (cases e) (auto simp: db_inv_def openDB_def split: if_splits)

lemma db_settled_run:
  assumes "db_inv m" and "dbPromise m = Some p" and "dbPromises m ! p \<noteq> Pending"
  shows "db_run events m = m"
  unfolding db_run_def using assms
  by (induction events) (simp_all add: db_settled_step)

lemma embedding_inv_initial: "embedding_inv embedding_initial"
  by (simp add: embedding_inv_def embedding_initial_def)

lemma embedding_inv_step: "embedding_inv m \<Longrightarrow> embedding_inv (embedding_step e m)"
  by (cases e)
     (auto simp: embedding_inv_def getInstance_def load_succeeds_def load_fails_def settle_def
        Let_def nth_append split: option.splits if_splits)

lemma embedding_inv_run: "embedding_inv m \<Longrightarrow> embedding_inv (embedding_run events m)"
  unfolding embedding_run_def
  by (induction events arbitrary: m) (simp_all add: embedding_inv_step)

lemma embedding_settled_step:
  assumes "embedding_inv m" and "loadedInstance m = Some i"
  shows "embedding_step e m = m"
  using assms
  by (cases e) (auto simp: embedding_inv_def getInstance_def split: if_splits option.splits)

lemma embedding_settled_run:
  assumes "embedding_inv m" and "loadedInstance m = Some i"
  shows "embedding_run events m = m"
  unfolding embedding_run_def using assms
  by (induction events) (simp_all add: embedding_settled_step)

text \<open>
  What the two modules do on the events of a request or load that has started. In every
  state a module reaches (by calls and by these events): the first call starts the one
  initialization; while an initialization is in flight it is the only one, and a call
  returns its promise without starting another; once it has succeeded, every later call
  gets the same connection or instance and no further initialization starts; and when
  the request fires its error event, or the load ends in the \<open>catch\<close> block, the cached
  promise is dropped, so that the next call starts a new initialization with a new
  pending promise.
\<close>

lemma lazy_singletons_on_request_events:
  assumes "m = db_run events db_initial" and "g = embedding_run events' embedding_initial"
  shows
    "openDB False db_initial
       = (0, \<lparr>dbPromise = Some 0, dbPromises = [Pending], db_inflight = {0}\<rparr>)
   \<and> (p \<in> db_inflight m \<longrightarrow>
        openDB t m = (p, m) \<and> dbPromises m ! p = Pending \<and> db_inflight m = {p})
   \<and> (p \<in> db_inflight m \<longrightarrow>
        (\<forall>later. openDB t (db_run later (db_step (OnSuccess p db) m))
                   = (p, db_step (OnSuccess p db) m)
                 \<and> dbPromises (db_step (OnSuccess p db) m) ! p = Fulfilled db
                 \<and> length (dbPromises (db_step (OnSuccess p db) m)) = length (dbPromises m)))
   \<and> (p \<in> db_inflight m \<longrightarrow>
        dbPromise (db_step (OnError p) m) = None
        \<and> dbPromises (db_step (OnError p) m) ! p = Rejected
        \<and> db_inflight (db_step (OnError p) m) = {}
        \<and> fst (openDB False (db_step (OnError p) m)) = length (dbPromises m)
        \<and> dbPromises (snd (openDB False (db_step (OnError p) m))) ! length (dbPromises m) = Pending
        \<and> db_inflight (snd (openDB False (db_step (OnError p) m))) = {length (dbPromises m)}
        \<and> p < length (dbPromises m))
   \<and> getInstance embedding_initial
       = (Awaiting 0,
          \<lparr>loadedInstance = None, instancePromise = Some 0, instancePromises = [Pending],
            loads_inflight = {0}\<rparr>)
   \<and> (q \<in> loads_inflight g \<longrightarrow>
        getInstance g = (Awaiting q, g) \<and> instancePromises g ! q = Pending
        \<and> loads_inflight g = {q})
   \<and> (q \<in> loads_inflight g \<longrightarrow>
        (\<forall>later. getInstance (embedding_run later (embedding_step (LoadSucceeds q i) g))
                   = (Ready i, embedding_step (LoadSucceeds q i) g)
                 \<and> instancePromises (embedding_step (LoadSucceeds q i) g) ! q = Fulfilled i
                 \<and> length (instancePromises (embedding_step (LoadSucceeds q i) g))
                     = length (instancePromises g)))
   \<and> (q \<in> loads_inflight g \<longrightarrow>
        instancePromise (embedding_step (LoadFails q) g) = None
        \<and> loadedInstance (embedding_step (LoadFails q) g) = None
        \<and> instancePromises (embedding_step (LoadFails q) g) ! q = Rejected
        \<and> loads_inflight (embedding_step (LoadFails q) g) = {}
        \<and> fst (getInstance (embedding_step (LoadFails q) g)) = Awaiting (length (instancePromises g))
        \<and> instancePromises (snd (getInstance (embedding_step (LoadFails q) g)))
             ! length (instancePromises g) = Pending
        \<and> loads_inflight (snd (getInstance (embedding_step (LoadFails q) g)))
            = {length (instancePromises g)}
        \<and> q < length (instancePromises g))"
proof -
  have dinv: "db_inv m"
    unfolding assms(1) by (rule db_inv_run [OF db_inv_initial])
  have einv: "embedding_inv g"
    unfolding assms(2) by (rule embedding_inv_run [OF embedding_inv_initial])
  have d1: "openDB False db_initial
       = (0, \<lparr>dbPromise = Some 0, dbPromises = [Pending], db_inflight = {0}\<rparr>)"
    by (simp add: openDB_def db_initial_def)
  have d2: "openDB t m = (p, m) \<and> dbPromises m ! p = Pending \<and> db_inflight m = {p}"
    if "p \<in> db_inflight m"
    using that dinv by (auto simp: db_inv_def openDB_def split: option.splits if_splits)
  have d3: "openDB t (db_run later (db_step (OnSuccess p db) m))
                   = (p, db_step (OnSuccess p db) m)
                 \<and> dbPromises (db_step (OnSuccess p db) m) ! p = Fulfilled db
                 \<and> length (dbPromises (db_step (OnSuccess p db) m)) = length (dbPromises m)"
    if "p \<in> db_inflight m" for later
  proof -
    let ?m' = "db_step (OnSuccess p db) m"
    have inv': "db_inv ?m'"
      by (rule db_inv_step [OF dinv])
    from that dinv have cached: "dbPromise ?m' = Some p" "dbPromises ?m' ! p = Fulfilled db"
      "length (dbPromises ?m') = length (dbPromises m)"
      by (auto simp: db_inv_def onsuccess_def settle_def split: option.splits if_splits)
    from cached have settled: "dbPromises ?m' ! p \<noteq> Pending"
      by simp
    from db_settled_run [OF inv' cached(1) settled] cached show ?thesis
      by (simp add: openDB_def)
  qed
  have d4: "dbPromise (db_step (OnError p) m) = None
        \<and> dbPromises (db_step (OnError p) m) ! p = Rejected
        \<and> db_inflight (db_step (OnError p) m) = {}
        \<and> fst (openDB False (db_step (OnError p) m)) = length (dbPromises m)
        \<and> dbPromises (snd (openDB False (db_step (OnError p) m))) ! length (dbPromises m) = Pending
        \<and> db_inflight (snd (openDB False (db_step (OnError p) m))) = {length (dbPromises m)}
        \<and> p < length (dbPromises m)"
    if "p \<in> db_inflight m"
    using that dinv
    by (auto simp: db_inv_def onerror_def openDB_def settle_def Let_def nth_append
        split: option.splits if_splits)
  have e1: "getInstance embedding_initial
       = (Awaiting 0,
          \<lparr>loadedInstance = None, instancePromise = Some 0, instancePromises = [Pending],
            loads_inflight = {0}\<rparr>)"
    by (simp add: getInstance_def embedding_initial_def)
  have e2: "getInstance g = (Awaiting q, g) \<and> instancePromises g ! q = Pending
        \<and> loads_inflight g = {q}"
    if "q \<in> loads_inflight g"
    using that einv
    by (auto simp: embedding_inv_def getInstance_def split: option.splits if_splits)
  have e3: "getInstance (embedding_run later (embedding_step (LoadSucceeds q i) g))
                   = (Ready i, embedding_step (LoadSucceeds q i) g)
                 \<and> instancePromises (embedding_step (LoadSucceeds q i) g) ! q = Fulfilled i
                 \<and> length (instancePromises (embedding_step (LoadSucceeds q i) g))
                     = length (instancePromises g)"
    if "q \<in> loads_inflight g" for later
  proof -
    let ?g' = "embedding_step (LoadSucceeds q i) g"
    have inv': "embedding_inv ?g'"
      by (rule embedding_inv_step [OF einv])
    from that einv have cached: "loadedInstance ?g' = Some i"
      "instancePromises ?g' ! q = Fulfilled i"
      "length (instancePromises ?g') = length (instancePromises g)"
      by (auto simp: embedding_inv_def load_succeeds_def settle_def split: option.splits if_splits)
    from embedding_settled_run [OF inv' cached(1)] cached show ?thesis
      by (simp add: getInstance_def)
  qed
  have e4: "instancePromise (embedding_step (LoadFails q) g) = None
        \<and> loadedInstance (embedding_step (LoadFails q) g) = None
        \<and> instancePromises (embedding_step (LoadFails q) g) ! q = Rejected
        \<and> loads_inflight (embedding_step (LoadFails q) g) = {}
        \<and> fst (getInstance (embedding_step (LoadFails q) g)) = Awaiting (length (instancePromises g))
        \<and> instancePromises (snd (getInstance (embedding_step (LoadFails q) g)))
             ! length (instancePromises g) = Pending
        \<and> loads_inflight (snd (getInstance (embedding_step (LoadFails q) g)))
            = {length (instancePromises g)}
        \<and> q < length (instancePromises g)"
    if "q \<in> loads_inflight g"
    using that einv
    by (auto simp: embedding_inv_def load_fails_def getInstance_def settle_def Let_def nth_append
        split: option.splits if_splits)
  from d1 d2 d3 d4 e1 e2 e3 e4 show ?thesis
    by blast
qed

text \<open>
  The lemma after two calls, with the first request in flight: a further call, the
  request's success followed by more calls and a stray error, and the request's failure
  followed by a call.
\<close>

lemma lazy_singletons_on_request_events_example:
  "(0 :: nat) \<in> db_inflight (db_run [OpenDB False, OpenDB False] (db_initial :: string db_module))
   \<and> openDB False (db_run [OpenDB False, OpenDB False] (db_initial :: string db_module))
       = (0, \<lparr>dbPromise = Some 0, dbPromises = [Pending], db_inflight = {0}\<rparr>)
   \<and> openDB False (db_run [OpenDB False, OnError 0, OpenDB True]
               (db_step (OnSuccess 0 ''Brain'') (db_run [OpenDB False, OpenDB False] db_initial)))
       = (0, \<lparr>dbPromise = Some 0, dbPromises = [Fulfilled ''Brain''], db_inflight = {}\<rparr>)
   \<and> openDB False (db_step (OnError 0) (db_run [OpenDB False, OpenDB False] (db_initial :: string db_module)))
       = (1, \<lparr>dbPromise = Some 1, dbPromises = [Rejected, Pending], db_inflight = {1}\<rparr>)
   \<and> (0 :: nat) \<in> loads_inflight
         (embedding_run [GetInstance, GetInstance] (embedding_initial :: string embedding_module))
   \<and> getInstance
         (embedding_run [GetInstance, GetInstance] (embedding_initial :: string embedding_module))
       = (Awaiting 0,
          \<lparr>loadedInstance = None, instancePromise = Some 0, instancePromises = [Pending],
            loads_inflight = {0}\<rparr>)
   \<and> getInstance (embedding_run [GetInstance, LoadFails 0]
                    (embedding_step (LoadSucceeds 0 ''model'')
                       (embedding_run [GetInstance, GetInstance] embedding_initial)))
       = (Ready ''model'',
          \<lparr>loadedInstance = Some ''model'', instancePromise = Some 0,
            instancePromises = [Fulfilled ''model''], loads_inflight = {}\<rparr>)
   \<and> getInstance (embedding_step (LoadFails 0)
                    (embedding_run [GetInstance, GetInstance]
                       (embedding_initial :: string embedding_module)))
       = (Awaiting 1,
          \<lparr>loadedInstance = None, instancePromise = Some 1,
            instancePromises = [Rejected, Pending], loads_inflight = {1}\<rparr>)"
proof -
  let ?m = "db_run [OpenDB False, OpenDB False] (db_initial :: string db_module)"
  let ?g = "embedding_run [GetInstance, GetInstance] (embedding_initial :: string embedding_module)"
  have m: "?m = \<lparr>dbPromise = Some 0, dbPromises = [Pending], db_inflight = {0}\<rparr>"
    by (simp add: db_run_def db_initial_def openDB_def)
  have g: "?g = \<lparr>loadedInstance = None, instancePromise = Some 0, instancePromises = [Pending],
                  loads_inflight = {0}\<rparr>"
    by (simp add: embedding_run_def embedding_initial_def getInstance_def)
  have dm: "(0 :: nat) \<in> db_inflight ?m" and dg: "(0 :: nat) \<in> loads_inflight ?g"
    by (simp_all add: m g)
  note t = lazy_singletons_on_request_events
      [OF refl refl, where events = "[OpenDB False, OpenDB False]" and events' = "[GetInstance, GetInstance]"
        and p = 0 and q = 0 and db = "''Brain''" and i = "''model''" and t = False]
  from t dm have a: "openDB False ?m = (0, ?m)"
    by blast
  from t dm have b: "openDB False (db_run [OpenDB False, OnError 0, OpenDB True] (db_step (OnSuccess 0 ''Brain'') ?m))
                     = (0, db_step (OnSuccess 0 ''Brain'') ?m)"
    by blast
  from t dg have c: "getInstance ?g = (Awaiting 0, ?g)"
    by blast
  from t dg have d: "getInstance (embedding_run [GetInstance, LoadFails 0]
                        (embedding_step (LoadSucceeds 0 ''model'') ?g))
                     = (Ready ''model'', embedding_step (LoadSucceeds 0 ''model'') ?g)"
    by blast
  have err: "openDB False (db_step (OnError 0) ?m)
             = (1, \<lparr>dbPromise = Some 1, dbPromises = [Rejected, Pending], db_inflight = {1}\<rparr>)"
    by (simp add: m onerror_def settle_def openDB_def)
  have errg: "getInstance (embedding_step (LoadFails 0) ?g)
              = (Awaiting 1,
                 \<lparr>loadedInstance = None, instancePromise = Some 1,
                   instancePromises = [Rejected, Pending], loads_inflight = {1}\<rparr>)"
    by (simp add: g load_fails_def settle_def getInstance_def)
  from dm a b err dg c d errg show ?thesis
    by (simp add: m g onsuccess_def load_succeeds_def settle_def)
qed

text \<open>
  C5: both modules are lazily initialized singletons whose failed initialization is
  dropped so that the next call retries. \<open>openDB\<close> breaks the last part when
  \<open>indexedDB.open\<close> itself throws: the throw happens inside the executor, before line 21
  assigns, so the rejected promise is cached, no handler exists that would clear it, and
  every later call, whatever else happens and also when \<open>indexedDB.open\<close> would answer
  by then, returns that rejected promise and starts no request.
\<close>

theorem openDB_replays_thrown_open_failure:
  "openDB True db_initial
     = (0, \<lparr>dbPromise = Some 0, dbPromises = [Rejected], db_inflight = {}\<rparr>)
   \<and> openDB False (db_run later (snd (openDB True db_initial)))
     = (0, \<lparr>dbPromise = Some 0, dbPromises = [Rejected], db_inflight = {}\<rparr>)"
proof -
  have first: "openDB True db_initial
     = (0, \<lparr>dbPromise = Some 0, dbPromises = [Rejected], db_inflight = {}\<rparr>)"
    by (simp add: openDB_def db_initial_def)
  have inv: "db_inv \<lparr>dbPromise = Some 0, dbPromises = [Rejected], db_inflight = {}\<rparr>"
    by (simp add: db_inv_def)
  have later: "db_run later \<lparr>dbPromise = Some 0, dbPromises = [Rejected], db_inflight = {}\<rparr>
        = \<lparr>dbPromise = Some 0, dbPromises = [Rejected], db_inflight = {}\<rparr>"
    by (rule db_settled_run [OF inv, of 0]) simp_all
  have again: "openDB False \<lparr>dbPromise = Some 0, dbPromises = [Rejected], db_inflight = {}\<rparr>
        = (0, \<lparr>dbPromise = Some 0, dbPromises = [Rejected], db_inflight = {}\<rparr>)"
    by (simp add: openDB_def)
  show ?thesis
    unfolding first snd_conv later again by simp
qed

end
